theory Spec2Isabelle
  imports
    Complex_Main
    "HOL-Library.Option_ord"
    "HOL-Library.List_Lexorder"
    "HOL-Library.Product_Lexorder"
begin

section \<open>Python floats\<close>

text \<open>The whole number nearest to a rational, and the even one of the two when it lies
  half way between them.\<close>

definition round_half_even :: "rat \<Rightarrow> int" where
  "round_half_even x =
     (let f = \<lfloor>x\<rfloor>; d = x - of_int f
      in if d < 1 / 2 then f else if 1 / 2 < d then f + 1 else if even f then f else f + 1)"

text \<open>A float is a finite number (a rational that a double represents), an infinity
  or NaN. The two zeros are one value, as they are for \<open>==\<close>.\<close>

datatype py_float = Finite rat | PInf | NInf | NaN

text \<open>The exponent of a positive rational: \<open>floor_log2 x\<close> is the \<open>k\<close> with
  \<open>2 ** k <= x < 2 ** (k + 1)\<close>, counted by halving or doubling.\<close>

function halvings :: "rat \<Rightarrow> nat" where
  "halvings x = (if x < 2 then 0 else Suc (halvings (x / 2)))"
  by pat_completeness auto
termination
proof (relation "measure (\<lambda>x. nat \<lfloor>x\<rfloor>)")
  show "wf (measure (\<lambda>x. nat \<lfloor>x\<rfloor>))" by simp
next
  fix x :: rat
  assume "\<not> x < 2"
  then have "2 \<le> x" by simp
  then have "\<lfloor>x / 2\<rfloor> < \<lfloor>x\<rfloor>"
    by (simp add: floor_less_iff) linarith
  moreover have "0 < \<lfloor>x\<rfloor>" using \<open>2 \<le> x\<close> by simp
  ultimately show "(x / 2, x) \<in> measure (\<lambda>x. nat \<lfloor>x\<rfloor>)"
    by simp
qed

function doublings :: "rat \<Rightarrow> nat" where
  "doublings x = (if x \<le> 0 \<or> 1 \<le> x then 0 else Suc (doublings (2 * x)))"
  by pat_completeness auto
termination
proof (relation "measure (\<lambda>x. nat \<lfloor>1 / x\<rfloor>)")
  show "wf (measure (\<lambda>x. nat \<lfloor>1 / x\<rfloor>))" by simp
next
  fix x :: rat
  assume "\<not> (x \<le> 0 \<or> 1 \<le> x)"
  then have x: "0 < x" "x < 1" by simp_all
  define y where "y = 1 / x"
  have y: "1 < y" using x by (simp add: y_def)
  have "1 \<le> \<lfloor>y\<rfloor>"
    using y by (simp add: le_floor_iff)
  then have "(1::rat) \<le> of_int \<lfloor>y\<rfloor>"
    by linarith
  moreover have "y < of_int \<lfloor>y\<rfloor> + 1"
    by linarith
  ultimately have "y / 2 < of_int \<lfloor>y\<rfloor>"
    by linarith
  then have "\<lfloor>y / 2\<rfloor> < \<lfloor>y\<rfloor>"
    by (simp add: floor_less_iff)
  moreover have "0 < \<lfloor>y\<rfloor>" using \<open>1 \<le> \<lfloor>y\<rfloor>\<close> by simp
  moreover have "1 / (2 * x) = y / 2" by (simp add: y_def)
  ultimately show "(2 * x, x) \<in> measure (\<lambda>x. nat \<lfloor>1 / x\<rfloor>)"
    by (simp add: y_def mult.commute)
qed

declare halvings.simps [simp del] doublings.simps [simp del]

definition floor_log2 :: "rat \<Rightarrow> int" where
  "floor_log2 x = (if 1 \<le> x then int (halvings x) else - int (doublings x))"

text \<open>The double nearest to a rational, ties to even: 53 bits of precision, the
  smallest step \<open>2 ** -1074\<close>, and an infinity from \<open>2 ** 1024\<close> on.\<close>

definition fl :: "rat \<Rightarrow> py_float" where
  "fl x =
     (if x = 0 then Finite 0
      else (let e = max (floor_log2 \<bar>x\<bar> - 52) (- 1074);
                m = round_half_even (x / 2 powi e);
                y = of_int m * 2 powi e
            in if 2 ^ 1024 \<le> \<bar>y\<bar> then (if 0 < x then PInf else NInf) else Finite y))"


text \<open>\<open>int\<close> to \<open>float\<close>, as the product of an \<open>int\<close> and a \<open>float\<close> converts its first
  factor: the nearest double, and \<open>OverflowError\<close> when there is none.\<close>

datatype overflow = OverflowError

definition float_of_int :: "int \<Rightarrow> overflow + py_float" where
  "float_of_int i = (case fl (of_int i) of Finite y \<Rightarrow> Inr (Finite y) | _ \<Rightarrow> Inl OverflowError)"

text \<open>The sum and the product of two floats.\<close>

fun fadd :: "py_float \<Rightarrow> py_float \<Rightarrow> py_float" where
  "fadd (Finite a) (Finite b) = fl (a + b)"
| "fadd NaN _ = NaN"
| "fadd _ NaN = NaN"
| "fadd PInf NInf = NaN"
| "fadd NInf PInf = NaN"
| "fadd PInf _ = PInf"
| "fadd _ PInf = PInf"
| "fadd NInf _ = NInf"
| "fadd _ NInf = NInf"

definition float_sign :: "py_float \<Rightarrow> int" where
  "float_sign x = (case x of Finite a \<Rightarrow> (if 0 < a then 1 else if a < 0 then - 1 else 0)
                   | PInf \<Rightarrow> 1 | NInf \<Rightarrow> - 1 | NaN \<Rightarrow> 0)"

fun fmul :: "py_float \<Rightarrow> py_float \<Rightarrow> py_float" where
  "fmul (Finite a) (Finite b) = fl (a * b)"
| "fmul NaN _ = NaN"
| "fmul _ NaN = NaN"
| "fmul x y = (if float_sign x * float_sign y = 0 then NaN
               else if 0 < float_sign x * float_sign y then PInf else NInf)"

text \<open>\<open>round(x, ndigits)\<close> of a float: the double nearest to the decimal with \<open>ndigits\<close>
  places that is nearest to the exact value of \<open>x\<close>, ties to even; an infinity or NaN is
  returned as it is. With two places the result of a double is always finite.\<close>

definition py_round :: "py_float \<Rightarrow> nat \<Rightarrow> py_float" where
  "py_round x ndigits =
     (case x of Finite r \<Rightarrow> fl (of_int (round_half_even (r * 10 ^ ndigits)) / 10 ^ ndigits) | _ \<Rightarrow> x)"


text \<open>The difference of two floats, and \<open>fabs(x) >= fabs(y)\<close>, which is false when one
  of the two is NaN.\<close>

definition fneg :: "py_float \<Rightarrow> py_float" where
  "fneg x = (case x of Finite a \<Rightarrow> Finite (- a) | PInf \<Rightarrow> NInf | NInf \<Rightarrow> PInf | NaN \<Rightarrow> NaN)"

definition fsub :: "py_float \<Rightarrow> py_float \<Rightarrow> py_float" where
  "fsub x y = fadd x (fneg y)"

fun fabs_ge :: "py_float \<Rightarrow> py_float \<Rightarrow> bool" where
  "fabs_ge NaN _ = False"
| "fabs_ge _ NaN = False"
| "fabs_ge (Finite a) (Finite b) = (\<bar>b\<bar> \<le> \<bar>a\<bar>)"
| "fabs_ge (Finite a) _ = False"
| "fabs_ge _ _ = True"

text \<open>The built-in \<open>sum\<close> on floats, with its start 0. The first float is added to the
  start. Up to CPython 3.11 each further float is added to the result so far. From
  CPython 3.12 on \<open>sum\<close> also keeps a compensation \<open>c\<close> of the rounding errors of
  these additions (the summation of Neumaier), which it adds at the end when it is
  finite and not zero; \<open>compensated\<close> is that loop. Which of the two \<open>sum\<close> does
  is its first argument.\<close>

fun compensated :: "py_float \<Rightarrow> py_float \<Rightarrow> py_float list \<Rightarrow> py_float" where
  "compensated f_result c [] =
     (case c of Finite r \<Rightarrow> (if r \<noteq> 0 then fadd f_result c else f_result) | _ \<Rightarrow> f_result)"
| "compensated f_result c (x # xs) =
     (let t = fadd f_result x
      in compensated t
           (fadd c (if fabs_ge f_result x then fadd (fsub f_result t) x
                    else fadd (fsub x t) f_result))
           xs)"

definition py_sum :: "bool \<Rightarrow> py_float list \<Rightarrow> py_float" where
  "py_sum compensates xs =
     (case xs of
        [] \<Rightarrow> Finite 0
      | x # rest \<Rightarrow>
          if compensates then compensated (fadd (Finite 0) x) (Finite 0) rest
          else foldl fadd (fadd (Finite 0) x) rest)"


section \<open>Python strings and the built-ins the application calls\<close>

text \<open>
  A Python \<open>str\<close> is a sequence of Unicode code points; it is modelled as a list of
  natural numbers. The literals of \<open>app.py\<close> that are ASCII are written through
  \<open>py_str\<close>. The classification of the ASCII code points is written out below as CPython
  has it. For code points from 128 on, CPython consults its Unicode database, which is not
  part of the application: those tables are fields of the record \<open>interpreter\<close>, and
  every function that depends on them takes the record as its first argument. Three more
  fields complete it: the limit on the number of digits that \<open>int\<close> converts
  (\<open>sys.get_int_max_str_digits()\<close>, 0 when there is none), the parser behind
  \<open>float(s)\<close>, which yields a number or raises \<open>ValueError\<close> (\<open>None\<close>), and whether
  \<open>sum\<close> compensates the rounding errors of its additions, as CPython does from
  version 3.12 on. Every theorem below holds for every such record.

  A Python \<open>float\<close> is a double of the section before.
\<close>

type_synonym str = "nat list"

definition py_str :: "string \<Rightarrow> str" where
  "py_str s = map of_char s"

record interpreter =
  uni_isspace :: "nat \<Rightarrow> bool"
  uni_isalnum :: "nat \<Rightarrow> bool"
  uni_todecimal :: "nat \<Rightarrow> nat option"
  uni_lower :: "str \<Rightarrow> nat \<Rightarrow> str"
  uni_upper :: "str \<Rightarrow> nat \<Rightarrow> str"
  int_max_str_digits :: nat
  float_of_str :: "str \<Rightarrow> py_float option"
  compensated_sum :: bool

text \<open>\<open>str.isspace\<close> on one code point (\<open>Py_UNICODE_ISSPACE\<close>): in ASCII these are
  TAB, LF, VT, FF, CR, the separators FS, GS, RS, US, and the space.\<close>

definition py_isspace :: "interpreter \<Rightarrow> nat \<Rightarrow> bool" where
  "py_isspace U c =
     (if c < 128 then (9 \<le> c \<and> c \<le> 13) \<or> (28 \<le> c \<and> c \<le> 31) \<or> c = 32
      else uni_isspace U c)"

text \<open>\<open>str.isalnum\<close> on one code point: in ASCII the digits and the letters.\<close>

definition py_isalnum :: "interpreter \<Rightarrow> nat \<Rightarrow> bool" where
  "py_isalnum U c =
     (if c < 128 then (48 \<le> c \<and> c \<le> 57) \<or> (65 \<le> c \<and> c \<le> 90) \<or> (97 \<le> c \<and> c \<le> 122)
      else uni_isalnum U c)"

text \<open>The class \<open>\w\<close> of the module \<open>re\<close> on a \<open>str\<close> pattern: alphanumeric, or the
  underscore.\<close>

definition re_word :: "interpreter \<Rightarrow> nat \<Rightarrow> bool" where
  "re_word U c = (py_isalnum U c \<or> c = 95)"

text \<open>\<open>str.lower\<close> and \<open>str.upper\<close>: an ASCII letter is mapped on its own; the image of
  any other code point is read from the database, which is given the whole string and
  the position (the lower case of a capital sigma depends on its neighbours, and one
  code point may become several).\<close>

definition py_lower :: "interpreter \<Rightarrow> str \<Rightarrow> str" where
  "py_lower U s =
     concat (map (\<lambda>i. let c = s ! i in
                        if c < 128 then [if 65 \<le> c \<and> c \<le> 90 then c + 32 else c]
                        else uni_lower U s i)
                 [0..<length s])"

definition py_upper :: "interpreter \<Rightarrow> str \<Rightarrow> str" where
  "py_upper U s =
     concat (map (\<lambda>i. let c = s ! i in
                        if c < 128 then [if 97 \<le> c \<and> c \<le> 122 then c - 32 else c]
                        else uni_upper U s i)
                 [0..<length s])"

text \<open>\<open>str.strip()\<close> without argument removes the white space at both ends.\<close>

definition py_strip :: "interpreter \<Rightarrow> str \<Rightarrow> str" where
  "py_strip U s = rev (dropWhile (py_isspace U) (rev (dropWhile (py_isspace U) s)))"

text \<open>\<open>re.sub(r"\s+", "-", value)\<close>: every maximal run of white space becomes one
  hyphen (code point 45).\<close>

function sub_spaces :: "(nat \<Rightarrow> bool) \<Rightarrow> str \<Rightarrow> str" where
  "sub_spaces sp [] = []"
| "sub_spaces sp (c # cs) =
     (if sp c then 45 # sub_spaces sp (dropWhile sp cs) else c # sub_spaces sp cs)"
  by pat_completeness auto
termination
  by (relation "measure (\<lambda>(sp, s). length s)") (auto simp: length_dropWhile_le less_Suc_eq_le)

text \<open>\<open>re.sub(r"[^\w-]", "", value)\<close>: only word characters and hyphens are kept.\<close>

definition strip_nonword :: "interpreter \<Rightarrow> str \<Rightarrow> str" where
  "strip_nonword U s = filter (\<lambda>c. re_word U c \<or> c = 45) s"

text \<open>\<open>str(n)\<close> of an integer, as the f-strings of the application use it.\<close>

function str_nat :: "nat \<Rightarrow> str" where
  "str_nat n = (if n < 10 then [48 + n] else str_nat (n div 10) @ [48 + n mod 10])"
  by pat_completeness auto
termination
  by (relation "measure id") auto

declare str_nat.simps [simp del]

definition str_int :: "int \<Rightarrow> str" where
  "str_int i = (if i < 0 then 45 # str_nat (nat (- i)) else str_nat (nat i))"

text \<open>\<open>slugify\<close> (lines 88 to 92).\<close>

definition slugify :: "interpreter \<Rightarrow> str \<Rightarrow> str" where
  "slugify U v =
     (let v1 = py_lower U (py_strip U v);
          v2 = sub_spaces (py_isspace U) v1;
          v3 = strip_nonword U v2
      in if v3 = [] then py_str ''section'' else v3)"

subsection \<open>\<open>int\<close> of a string\<close>

text \<open>
  \<open>int(s)\<close> first rewrites a string that is not pure ASCII: a code point below 127 is
  kept, white space becomes a space, a decimal digit of any script becomes the ASCII
  digit, and at the first other code point the string is cut and ends in a question
  mark. The ASCII string is then read in base 10: white space of the C locale, an
  optional sign, digits that single underscores may separate, white space. Everything
  else raises \<open>ValueError\<close>, as does a number with more digits than the limit.
\<close>

datatype py_error = ValueError

definition py_todecimal :: "interpreter \<Rightarrow> nat \<Rightarrow> nat option" where
  "py_todecimal U c =
     (if c < 128 then (if 48 \<le> c \<and> c \<le> 57 then Some (c - 48) else None)
      else uni_todecimal U c)"

fun transform_decimal_and_space :: "interpreter \<Rightarrow> str \<Rightarrow> str" where
  "transform_decimal_and_space U [] = []"
| "transform_decimal_and_space U (c # cs) =
     (if c < 127 then c # transform_decimal_and_space U cs
      else if py_isspace U c then 32 # transform_decimal_and_space U cs
      else (case py_todecimal U c of
              None \<Rightarrow> [63]
            | Some d \<Rightarrow> (48 + d) # transform_decimal_and_space U cs))"

definition c_isspace :: "nat \<Rightarrow> bool" where
  "c_isspace c = ((9 \<le> c \<and> c \<le> 13) \<or> c = 32)"

definition c_isdigit :: "nat \<Rightarrow> bool" where
  "c_isdigit c = (48 \<le> c \<and> c \<le> 57)"

fun well_grouped :: "str \<Rightarrow> bool" where
  "well_grouped [] = False"
| "well_grouped [c] = c_isdigit c"
| "well_grouped (c # d # cs) =
     (c_isdigit c \<and> (if d = 95 then well_grouped cs else well_grouped (d # cs)))"

definition digits_value :: "str \<Rightarrow> nat" where
  "digits_value ds = foldl (\<lambda>a c. if c = 95 then a else 10 * a + (c - 48)) 0 ds"

definition long_from_string :: "nat \<Rightarrow> str \<Rightarrow> py_error + int" where
  "long_from_string maxd a =
     (let s1 = dropWhile c_isspace a;
          negative = (s1 \<noteq> [] \<and> hd s1 = 45);
          s2 = (if s1 \<noteq> [] \<and> (hd s1 = 43 \<or> hd s1 = 45) then tl s1 else s1);
          ds = takeWhile (\<lambda>c. c_isdigit c \<or> c = 95) s2;
          rest = dropWhile (\<lambda>c. c_isdigit c \<or> c = 95) s2;
          n = length (filter c_isdigit ds)
      in if \<not> well_grouped ds \<or> \<not> list_all c_isspace rest then Inl ValueError
         else if 0 < maxd \<and> 640 < n \<and> maxd < n then Inl ValueError
         else Inr (if negative then - int (digits_value ds) else int (digits_value ds)))"

definition py_int :: "interpreter \<Rightarrow> str \<Rightarrow> py_error + int" where
  "py_int U s =
     long_from_string (int_max_str_digits U)
       (if list_all (\<lambda>c. c < 128) s then s else transform_decimal_and_space U s)"

text \<open>An interpreter for evaluation: no code point from 128 on is white space,
  alphanumeric or a digit, none changes case, \<open>int\<close> converts at most 4300 digits,
  \<open>float\<close> reads whole numbers only, and \<open>sum\<close> does not compensate.\<close>

definition ascii_interpreter :: interpreter where
  "ascii_interpreter = \<lparr>uni_isspace = (\<lambda>c. False), uni_isalnum = (\<lambda>c. False),
                uni_todecimal = (\<lambda>c. None), uni_lower = (\<lambda>s i. [s ! i]),
                uni_upper = (\<lambda>s i. [s ! i]), int_max_str_digits = 4300,
                float_of_str = (\<lambda>s. if s \<noteq> [] \<and> list_all c_isdigit s
                                    then Some (fl (of_nat (digits_value s))) else None),
                compensated_sum = False\<rparr>"

section \<open>The data model (lines 16 to 85)\<close>

text \<open>
  One record for each class of the model; the columns keep their names, except \<open>id\<close>,
  \<open>name\<close> and the \<open>price\<close> of a menu item, which several classes share and which carry
  a prefix here. The password hash of a user plays no part and is left out. The line
  items of an order are the relationship \<open>Order.items\<close>, held inside the order. A
  \<open>datetime\<close> is a number of microseconds, and \<open>date\<close> is its calendar day.
\<close>

type_synonym datetime = int


record user =
  u_id :: int
  username :: str
  role :: str

record dining_table =
  dt_id :: int
  code :: str
  dt_name :: str

record menu_item =
  mi_id :: int
  mi_name :: str
  description :: str
  mi_price :: py_float
  category :: "str option"
  available :: bool

record order_item =
  menu_item_id :: int
  quantity :: int
  price :: py_float

record order =
  o_id :: int
  table_id :: int
  status :: str
  total_amount :: py_float
  created_at :: datetime
  updated_at :: datetime
  requested_assistance :: bool
  created_by_id :: "int option"
  paid_at :: "datetime option"
  payment_method :: "str option"
  items :: "order_item list"

definition is_active :: "order \<Rightarrow> bool" where
  "is_active self = (status self \<notin> {py_str ''paid'', py_str ''cancelled''})"

text \<open>\<open>subtotal\<close> (lines 80 to 82): the product converts the quantity to a float, which
  raises \<open>OverflowError\<close> when the quantity is too large.\<close>

definition subtotal :: "order_item \<Rightarrow> overflow + py_float" where
  "subtotal self =
     (case float_of_int (quantity self) of
        Inl e \<Rightarrow> Inl e
      | Inr q \<Rightarrow> Inr (py_round (fmul q (price self)) 2))"

text \<open>The values of \<open>item.subtotal for item in self.items\<close>: the subtotals of the line
  items in their order; the first that raises ends the sum that consumes them, whose
  additions of floats never raise.\<close>

fun subtotals :: "order_item list \<Rightarrow> overflow + py_float list" where
  "subtotals [] = Inr []"
| "subtotals (item # rest) =
     (case subtotal item of
        Inl e \<Rightarrow> Inl e
      | Inr s \<Rightarrow> (case subtotals rest of Inl e \<Rightarrow> Inl e | Inr ss \<Rightarrow> Inr (s # ss)))"

text \<open>\<open>recalculate_total\<close> (lines 66 to 68): the total is what \<open>sum\<close> returns, and
  nothing rounds it.\<close>

definition recalculate_total :: "interpreter \<Rightarrow> order \<Rightarrow> datetime \<Rightarrow> overflow + order" where
  "recalculate_total U self now =
     (case subtotals (items self) of
        Inl e \<Rightarrow> Inl e
      | Inr ss \<Rightarrow> Inr (self\<lparr>total_amount := py_sum (compensated_sum U) ss, updated_at := now\<rparr>))"

definition STATUS_FLOW :: "str list" where
  "STATUS_FLOW = [py_str ''pending'', py_str ''preparing'', py_str ''served'',
                  py_str ''completed'', py_str ''paid'']"

text \<open>The tables of the database, each in the order of insertion.\<close>

record database =
  users :: "user list"
  tables :: "dining_table list"
  menu :: "menu_item list"
  orders :: "order list"

text \<open>The primary key that the database gives a new row: one more than the largest.\<close>

definition next_id :: "int list \<Rightarrow> int" where
  "next_id ids = fold max ids 0 + 1"

section \<open>The requests\<close>

text \<open>
  A view function is a function of the database, of the request and of the readings of
  the clock that it takes, one argument for each call of \<open>datetime.utcnow()\<close> in the order
  of the calls. It returns an abort (\<open>abort(403)\<close>, \<open>get_or_404\<close>, \<open>first_or_404\<close>, or an
  exception that nothing handles, which commits nothing and answers with status 500), or
  the database after the request with the messages flashed and the response. The Thai texts
  of the messages are named by their meaning.
\<close>

datatype http_method = GET | POST

datatype http_abort = forbidden | not_found | internal_server_error

datatype flash_category = danger | info | success | warning

datatype message =
    please_log_in
  | price_invalid
  | name_required
  | menu_item_added
  | menu_item_edited
  | menu_item_deleted
  | table_fields_required
  | table_code_taken
  | table_added
  | table_has_orders
  | table_deleted
  | table_required
  | no_item_selected
  | order_created
  | status_invalid
  | status_updated
  | assistance_acknowledged
  | order_sent
  | staff_notified

record menu_section =
  name :: str
  anchor :: str
  section_items :: "menu_item list"

datatype response =
    redirect_login
  | redirect_admin_menu
  | redirect_admin_tables
  | redirect_staff_order_detail int
  | redirect_customer_order_summary str int
  | render_admin_dashboard py_float py_float "order list"
  | render_menu_form "menu_item option"
  | render_tables "dining_table list"
  | render_order_form "dining_table list" "menu_item list"
  | render_table_view dining_table "menu_section list" "order list" "order option"

type_synonym form = "str \<rightharpoonup> str"

type_synonym outcome = "http_abort + database \<times> (message \<times> flash_category) list \<times> response"

text \<open>\<open>request.form.get(key, default)\<close>.\<close>

definition form_get :: "form \<Rightarrow> string \<Rightarrow> str \<Rightarrow> str" where
  "form_get form_data key dflt = (case form_data (py_str key) of None \<Rightarrow> dflt | Some v \<Rightarrow> v)"

text \<open>\<open>login_required\<close> (lines 118 to 135), applied to the outcome of the view; \<open>roles\<close> is
  the list of the roles allowed.\<close>

definition login_required :: "str list \<Rightarrow> user option \<Rightarrow> database \<Rightarrow> outcome \<Rightarrow> outcome" where
  "login_required roles g_user db view =
     (case g_user of
        None \<Rightarrow> Inr (db, [(please_log_in, warning)], redirect_login)
      | Some u \<Rightarrow> if roles \<noteq> [] \<and> role u \<notin> set roles then Inl forbidden else view)"

text \<open>\<open>parse_order_items\<close> (lines 137 to 147). The quantity is \<open>int(raw_qty or 0)\<close>, and 0
  when \<open>int\<close> raises \<open>ValueError\<close>.\<close>

fun parse_order_items :: "interpreter \<Rightarrow> form \<Rightarrow> menu_item list \<Rightarrow> (menu_item \<times> int) list" where
  "parse_order_items U form_data [] = []"
| "parse_order_items U form_data (item # menu_items) =
     (let raw_qty = form_data (py_str ''item_'' @ str_int (mi_id item));
          qty = (case raw_qty of
                   None \<Rightarrow> 0
                 | Some s \<Rightarrow> if s = [] then 0
                            else (case py_int U s of Inl ValueError \<Rightarrow> 0 | Inr n \<Rightarrow> n))
      in (if qty > 0 then [(item, qty)] else []) @ parse_order_items U form_data menu_items)"

text \<open>The order that both forms create (lines 365 to 376 and 457 to 468): the status
  is \<open>pending\<close>, there is one line item for each selection, with the price of the menu item
  at this moment, and \<open>recalculate_total\<close> runs before the commit, which an
  \<open>OverflowError\<close> never reaches. The commit gives the order its key and \<open>created_at\<close>,
  the column default.\<close>

definition new_order ::
  "interpreter \<Rightarrow> database \<Rightarrow> dining_table \<Rightarrow> user option \<Rightarrow> (menu_item \<times> int) list
     \<Rightarrow> datetime \<Rightarrow> datetime \<Rightarrow> overflow + order" where
  "new_order U db table created_by selected_items now_recalc now_commit =
     recalculate_total U
       \<lparr>o_id = next_id (map o_id (orders db)), table_id = dt_id table,
        status = py_str ''pending'', total_amount = Finite 0,
        created_at = now_commit, updated_at = now_commit, requested_assistance = False,
        created_by_id = map_option u_id created_by, paid_at = None, payment_method = None,
        items = map (\<lambda>(menu_item, qty).
                       \<lparr>menu_item_id = mi_id menu_item, quantity = qty, price = mi_price menu_item\<rparr>)
                    selected_items\<rparr>
       now_recalc"

text \<open>\<open>DiningTable.query.get(table_id)\<close> with the value of a form field: the table whose
  key is written so.\<close>

definition query_get_table :: "database \<Rightarrow> str option \<Rightarrow> dining_table option" where
  "query_get_table db ident =
     (case ident of None \<Rightarrow> None | Some s \<Rightarrow> find (\<lambda>t. str_int (dt_id t) = s) (tables db))"

text \<open>\<open>staff_new_order\<close> (lines 348 to 381).\<close>

definition staff_new_order ::
  "interpreter \<Rightarrow> database \<Rightarrow> user option \<Rightarrow> http_method \<Rightarrow> form \<Rightarrow> datetime \<Rightarrow> datetime \<Rightarrow> outcome" where
  "staff_new_order U db g_user method form_data now_recalc now_commit =
     (let tables' = sort_key code (tables db);
          menu_items = sort_key mi_name (filter available (menu db))
      in if method = POST then
           (case query_get_table db (form_data (py_str ''table_id'')) of
              None \<Rightarrow> Inr (db, [(table_required, danger)], render_order_form tables' menu_items)
            | Some table \<Rightarrow>
                (let selected_items = parse_order_items U form_data menu_items
                 in if selected_items = []
                    then Inr (db, [(no_item_selected, danger)], render_order_form tables' menu_items)
                    else (case new_order U db table g_user selected_items now_recalc now_commit of
                            Inl e \<Rightarrow> Inl internal_server_error
                          | Inr order \<Rightarrow>
                              Inr (db\<lparr>orders := orders db @ [order]\<rparr>, [(order_created, success)],
                                   redirect_staff_order_detail (o_id order)))))
         else Inr (db, [], render_order_form tables' menu_items))"

text \<open>The row of an order is written back under its key.\<close>

definition update_order :: "database \<Rightarrow> order \<Rightarrow> database" where
  "update_order db order = db\<lparr>orders := map (\<lambda>row. if o_id row = o_id order then order else row) (orders db)\<rparr>"

text \<open>\<open>staff_update_status\<close> (lines 391 to 408).\<close>

definition staff_update_status ::
  "interpreter \<Rightarrow> database \<Rightarrow> int \<Rightarrow> form \<Rightarrow> datetime \<Rightarrow> datetime \<Rightarrow> outcome" where
  "staff_update_status U db order_id form_data now_status now_paid =
     (case find (\<lambda>row. o_id row = order_id) (orders db) of
        None \<Rightarrow> Inl not_found
      | Some order \<Rightarrow>
          (case form_data (py_str ''status'') of
             None \<Rightarrow> Inr (db, [(status_invalid, danger)], redirect_staff_order_detail (o_id order))
           | Some status' \<Rightarrow>
               if status' \<notin> set STATUS_FLOW
               then Inr (db, [(status_invalid, danger)], redirect_staff_order_detail (o_id order))
               else (let order1 = order\<lparr>status := status', updated_at := now_status\<rparr>;
                         order2 =
                           (if status' = py_str ''paid''
                            then (let payment_method' = py_strip U (form_get form_data ''payment_method'' [])
                                  in order1\<lparr>paid_at := Some now_paid,
                                            payment_method := (if payment_method' = [] then None
                                                               else Some payment_method')\<rparr>)
                            else order1\<lparr>payment_method := None, paid_at := None\<rparr>)
                     in Inr (update_order db order2, [(status_updated, success)],
                             redirect_staff_order_detail (o_id order)))))"

text \<open>\<open>staff_acknowledge\<close> (lines 412 to 418).\<close>

definition staff_acknowledge :: "database \<Rightarrow> int \<Rightarrow> datetime \<Rightarrow> outcome" where
  "staff_acknowledge db order_id now =
     (case find (\<lambda>row. o_id row = order_id) (orders db) of
        None \<Rightarrow> Inl not_found
      | Some order \<Rightarrow>
          Inr (update_order db (order\<lparr>requested_assistance := False, updated_at := now\<rparr>),
               [(assistance_acknowledged, info)], redirect_staff_order_detail (o_id order)))"

text \<open>The sections of the menu (lines 429 to 439). The label of an item without
  category is the Thai for "recommended menu", written here in code points.\<close>

definition fallback_label :: str where
  "fallback_label = [3648, 3617, 3609, 3641, 3649, 3609, 3632, 3609, 3635]"

definition category_name :: "menu_item \<Rightarrow> str" where
  "category_name item =
     (case category item of None \<Rightarrow> fallback_label | Some c \<Rightarrow> if c = [] then fallback_label else c)"

fun menu_sections_loop ::
  "interpreter \<Rightarrow> menu_item list \<Rightarrow> menu_section list \<Rightarrow> nat \<Rightarrow> menu_section list" where
  "menu_sections_loop U [] menu_sections fallback_index = menu_sections"
| "menu_sections_loop U (item # rest) menu_sections fallback_index =
     (let opens = (menu_sections = [] \<or> name (last menu_sections) \<noteq> category_name item);
          numbered = (opens \<and> slugify U (category_name item) = py_str ''section'');
          anchor' = (if numbered then py_str ''section-'' @ str_nat fallback_index
                     else slugify U (category_name item));
          sections1 = (if opens
                       then menu_sections @
                            [\<lparr>name = category_name item, anchor = anchor', section_items = []\<rparr>]
                       else menu_sections);
          sections2 = butlast sections1 @
                      [(last sections1)\<lparr>section_items := section_items (last sections1) @ [item]\<rparr>]
      in menu_sections_loop U rest sections2 (if numbered then fallback_index + 1 else fallback_index))"

definition menu_sections_of :: "interpreter \<Rightarrow> menu_item list \<Rightarrow> menu_section list" where
  "menu_sections_of U menu_items = menu_sections_loop U menu_items [] 1"

text \<open>\<open>table_view\<close> (lines 422 to 477). \<open>NULL\<close> sorts first, as \<open>None\<close> does, and strings
  sort by code point.\<close>

definition table_view ::
  "interpreter \<Rightarrow> database \<Rightarrow> str \<Rightarrow> http_method \<Rightarrow> form \<Rightarrow> datetime \<Rightarrow> datetime \<Rightarrow> outcome" where
  "table_view U db code' method form_data now_recalc now_commit =
     (case find (\<lambda>t. code t = py_upper U code') (tables db) of
        None \<Rightarrow> Inl not_found
      | Some table \<Rightarrow>
          (let menu_items = sort_key (\<lambda>m. (category m, mi_name m)) (filter available (menu db));
               menu_sections = menu_sections_of U menu_items;
               active_orders =
                 sort_key (\<lambda>row. - created_at row)
                   (filter (\<lambda>row. table_id row = dt_id table \<and> status row \<noteq> py_str ''paid'') (orders db));
               latest_order = (case active_orders of [] \<Rightarrow> None | row # _ \<Rightarrow> Some row)
           in if method = POST then
                (let selected_items = parse_order_items U form_data menu_items
                 in if selected_items = []
                    then Inr (db, [(no_item_selected, danger)],
                              render_table_view table menu_sections active_orders latest_order)
                    else (case new_order U db table None selected_items now_recalc now_commit of
                            Inl e \<Rightarrow> Inl internal_server_error
                          | Inr order \<Rightarrow>
                              Inr (db\<lparr>orders := orders db @ [order]\<rparr>, [(order_sent, success)],
                                   redirect_customer_order_summary (code table) (o_id order))))
              else Inr (db, [], render_table_view table menu_sections active_orders latest_order)))"

text \<open>\<open>customer_call_staff\<close> (lines 494 to 501).\<close>

definition customer_call_staff :: "interpreter \<Rightarrow> database \<Rightarrow> str \<Rightarrow> int \<Rightarrow> datetime \<Rightarrow> outcome" where
  "customer_call_staff U db code' order_id now =
     (case find (\<lambda>t. code t = py_upper U code') (tables db) of
        None \<Rightarrow> Inl not_found
      | Some table \<Rightarrow>
          (case find (\<lambda>row. o_id row = order_id \<and> table_id row = dt_id table) (orders db) of
             None \<Rightarrow> Inl not_found
           | Some order \<Rightarrow>
               Inr (update_order db (order\<lparr>requested_assistance := True, updated_at := now\<rparr>),
                    [(staff_notified, info)],
                    redirect_customer_order_summary (code table) (o_id order))))"





definition open_orders :: "database \<Rightarrow> order list" where
  "open_orders db =
     take 10 (sort_key (\<lambda>row. - created_at row)
                (filter (\<lambda>row. status row \<noteq> py_str ''paid'') (orders db)))"


text \<open>The requests of the administrator that write (lines 220 to 314).
  \<open>float(price)\<close> raises \<open>TypeError\<close> when the field is missing and \<open>ValueError\<close> when it
  is not a number; both are caught.\<close>

definition menu_fields ::
  "interpreter \<Rightarrow> form \<Rightarrow> str \<times> str \<times> py_float option \<times> str option \<times> bool" where
  "menu_fields U form_data =
     (let name' = py_strip U (form_get form_data ''name'' []);
          description' = py_strip U (form_get form_data ''description'' []);
          price_value = (case form_data (py_str ''price'') of None \<Rightarrow> None | Some p \<Rightarrow> float_of_str U p);
          category' = (let c = py_strip U (form_get form_data ''category'' [])
                       in if c = [] then None else Some c);
          available' = (case form_data (py_str ''available'') of None \<Rightarrow> False | Some v \<Rightarrow> v \<noteq> [])
      in (name', description', price_value, category', available'))"

definition admin_menu_new :: "interpreter \<Rightarrow> database \<Rightarrow> http_method \<Rightarrow> form \<Rightarrow> outcome" where
  "admin_menu_new U db method form_data =
     (if method = POST then
        (case menu_fields U form_data of
           (name', description', None, category', available') \<Rightarrow>
             Inr (db, [(price_invalid, danger)], render_menu_form None)
         | (name', description', Some price_value, category', available') \<Rightarrow>
             if name' = [] then Inr (db, [(name_required, danger)], render_menu_form None)
             else Inr (db\<lparr>menu := menu db @
                            [\<lparr>mi_id = next_id (map mi_id (menu db)), mi_name = name',
                              description = description', mi_price = py_round price_value 2,
                              category = category', available = available'\<rparr>]\<rparr>,
                       [(menu_item_added, success)], redirect_admin_menu))
      else Inr (db, [], render_menu_form None))"

definition admin_menu_edit :: "interpreter \<Rightarrow> database \<Rightarrow> int \<Rightarrow> http_method \<Rightarrow> form \<Rightarrow> outcome" where
  "admin_menu_edit U db item_id method form_data =
     (case find (\<lambda>m. mi_id m = item_id) (menu db) of
        None \<Rightarrow> Inl not_found
      | Some item \<Rightarrow>
          if method = POST then
            (case menu_fields U form_data of
               (name', description', None, category', available') \<Rightarrow>
                 Inr (db, [(price_invalid, danger)], render_menu_form (Some item))
             | (name', description', Some price_value, category', available') \<Rightarrow>
                 if name' = [] then Inr (db, [(name_required, danger)], render_menu_form (Some item))
                 else Inr (db\<lparr>menu := map (\<lambda>m. if mi_id m = item_id
                                                  then item\<lparr>mi_name := name', description := description',
                                                            mi_price := py_round price_value 2,
                                                            category := category',
                                                            available := available'\<rparr>
                                                  else m) (menu db)\<rparr>,
                           [(menu_item_edited, success)], redirect_admin_menu))
          else Inr (db, [], render_menu_form (Some item)))"

definition admin_menu_delete :: "database \<Rightarrow> int \<Rightarrow> outcome" where
  "admin_menu_delete db item_id =
     (case find (\<lambda>m. mi_id m = item_id) (menu db) of
        None \<Rightarrow> Inl not_found
      | Some item \<Rightarrow>
          Inr (db\<lparr>menu := filter (\<lambda>m. mi_id m \<noteq> item_id) (menu db)\<rparr>,
               [(menu_item_deleted, info)], redirect_admin_menu))"

definition admin_tables :: "interpreter \<Rightarrow> database \<Rightarrow> http_method \<Rightarrow> form \<Rightarrow> outcome" where
  "admin_tables U db method form_data =
     (if method = POST then
        (let name' = py_strip U (form_get form_data ''name'' []);
             code' = py_upper U (py_strip U (form_get form_data ''code'' []))
         in if name' = [] \<or> code' = []
            then Inr (db, [(table_fields_required, danger)], redirect_admin_tables)
            else if find (\<lambda>t. code t = code') (tables db) \<noteq> None
            then Inr (db, [(table_code_taken, danger)], redirect_admin_tables)
            else Inr (db\<lparr>tables := tables db @
                           [\<lparr>dt_id = next_id (map dt_id (tables db)), code = code', dt_name = name'\<rparr>]\<rparr>,
                      [(table_added, success)], redirect_admin_tables))
      else Inr (db, [], render_tables (sort_key code (tables db))))"

definition admin_table_delete :: "database \<Rightarrow> int \<Rightarrow> outcome" where
  "admin_table_delete db table_id' =
     (case find (\<lambda>t. dt_id t = table_id') (tables db) of
        None \<Rightarrow> Inl not_found
      | Some table \<Rightarrow>
          if filter (\<lambda>row. table_id row = dt_id table) (orders db) \<noteq> []
          then Inr (db, [(table_has_orders, danger)], redirect_admin_tables)
          else Inr (db\<lparr>tables := filter (\<lambda>t. dt_id t \<noteq> table_id') (tables db)\<rparr>,
                    [(table_deleted, info)], redirect_admin_tables))"

text \<open>\<open>seed_data\<close> (lines 508 to 532) fills each of three tables when it is empty; the
  Thai names are written in code points.\<close>

definition seed_users :: "user list" where
  "seed_users = [\<lparr>u_id = 1, username = py_str ''admin'', role = py_str ''admin''\<rparr>,
                 \<lparr>u_id = 2, username = py_str ''staff'', role = py_str ''staff''\<rparr>]"

definition seed_tables :: "dining_table list" where
  "seed_tables =
     [\<lparr>dt_id = 1, code = py_str ''T1'', dt_name = [3650, 3605, 3658, 3632, 32, 49]\<rparr>,
      \<lparr>dt_id = 2, code = py_str ''T2'', dt_name = [3650, 3605, 3658, 3632, 32, 50]\<rparr>,
      \<lparr>dt_id = 3, code = py_str ''VIP'', dt_name = [3650, 3605, 3658, 3632, 32, 86, 73, 80]\<rparr>]"

definition pad_thai :: menu_item where
  "pad_thai =
     \<lparr>mi_id = 1,
      mi_name = [3612, 3633, 3604, 3652, 3607, 3618, 3585, 3640, 3657, 3591, 3626, 3604],
      description = [], mi_price = Finite 80,
      category = Some [3629, 3634, 3627, 3634, 3619, 3592, 3634, 3609, 3627, 3621, 3633, 3585],
      available = True\<rparr>"

definition tom_yum_kung :: menu_item where
  "tom_yum_kung =
     \<lparr>mi_id = 2, mi_name = [3605, 3657, 3617, 3618, 3635, 3585, 3640, 3657, 3591],
      description = [], mi_price = Finite 120, category = Some [3595, 3640, 3611], available = True\<rparr>"

definition thai_iced_tea :: menu_item where
  "thai_iced_tea =
     \<lparr>mi_id = 3, mi_name = [3594, 3634, 3648, 3618, 3655, 3609],
      description = [], mi_price = Finite 45,
      category = Some [3648, 3588, 3619, 3639, 3656, 3629, 3591, 3604, 3639, 3656, 3617],
      available = True\<rparr>"

definition mango_sticky_rice :: menu_item where
  "mango_sticky_rice =
     \<lparr>mi_id = 4,
      mi_name = [3586, 3657, 3634, 3623, 3648, 3627, 3609, 3637, 3618, 3623, 3617, 3632,
                 3617, 3656, 3623, 3591],
      description = [], mi_price = Finite 60,
      category = Some [3586, 3629, 3591, 3627, 3623, 3634, 3609], available = True\<rparr>"

definition seed_menu :: "menu_item list" where
  "seed_menu = [pad_thai, tom_yum_kung, thai_iced_tea, mango_sticky_rice]"

definition seed_data :: "database \<Rightarrow> database" where
  "seed_data db =
     (let db1 = (if users db = [] then db\<lparr>users := seed_users\<rparr> else db);
          db2 = (if tables db1 = [] then db1\<lparr>tables := seed_tables\<rparr> else db1)
      in if menu db2 = [] then db2\<lparr>menu := seed_menu\<rparr> else db2)"

section \<open>The reachable states\<close>

text \<open>
  The routes that write to the database, each with the arguments of the request, and the
  dispatch with the decorators of the routes. The application starts on an empty
  database that \<open>init_database\<close> seeds; a restart seeds again; a request that ends in an
  abort commits nothing. The user of a request is none or a row of \<open>User\<close>
  (lines 106 to 108).
\<close>

datatype request =
    Admin_menu_new http_method form
  | Admin_menu_edit int http_method form
  | Admin_menu_delete int
  | Admin_tables http_method form
  | Admin_table_delete int
  | Staff_new_order http_method form datetime datetime
  | Staff_update_status int form datetime datetime
  | Staff_acknowledge int datetime
  | Table_view str http_method form datetime datetime
  | Customer_call_staff str int datetime

fun dispatch :: "interpreter \<Rightarrow> database \<Rightarrow> user option \<Rightarrow> request \<Rightarrow> outcome" where
  "dispatch U db g_user (Admin_menu_new method form_data) =
     login_required [py_str ''admin''] g_user db (admin_menu_new U db method form_data)"
| "dispatch U db g_user (Admin_menu_edit item_id method form_data) =
     login_required [py_str ''admin''] g_user db (admin_menu_edit U db item_id method form_data)"
| "dispatch U db g_user (Admin_menu_delete item_id) =
     login_required [py_str ''admin''] g_user db (admin_menu_delete db item_id)"
| "dispatch U db g_user (Admin_tables method form_data) =
     login_required [py_str ''admin''] g_user db (admin_tables U db method form_data)"
| "dispatch U db g_user (Admin_table_delete table_id') =
     login_required [py_str ''admin''] g_user db (admin_table_delete db table_id')"
| "dispatch U db g_user (Staff_new_order method form_data now_recalc now_commit) =
     login_required [py_str ''staff'', py_str ''admin''] g_user db
       (staff_new_order U db g_user method form_data now_recalc now_commit)"
| "dispatch U db g_user (Staff_update_status order_id form_data now_status now_paid) =
     login_required [py_str ''staff'', py_str ''admin''] g_user db
       (staff_update_status U db order_id form_data now_status now_paid)"
| "dispatch U db g_user (Staff_acknowledge order_id now) =
     login_required [py_str ''staff'', py_str ''admin''] g_user db (staff_acknowledge db order_id now)"
| "dispatch U db g_user (Table_view code' method form_data now_recalc now_commit) =
     table_view U db code' method form_data now_recalc now_commit"
| "dispatch U db g_user (Customer_call_staff code' order_id now) =
     customer_call_staff U db code' order_id now"

definition empty_database :: database where
  "empty_database = \<lparr>users = [], tables = [], menu = [], orders = []\<rparr>"

inductive reachable :: "interpreter \<Rightarrow> database \<Rightarrow> bool" for U :: interpreter where
  start: "reachable U (seed_data empty_database)"
| restart: "reachable U db \<Longrightarrow> reachable U (seed_data db)"
| request: "reachable U db \<Longrightarrow> (case g_user of None \<Rightarrow> True | Some u \<Rightarrow> u \<in> set (users db)) \<Longrightarrow>
            dispatch U db g_user req = Inr (db', flashes, resp) \<Longrightarrow> reachable U db'"

section \<open>The invariant of the database\<close>

text \<open>
  In every state that the application reaches, the status of each order is one of
  \<open>STATUS_FLOW\<close>, and the total of each order is what the sum of the subtotals of its
  line items gives.
\<close>

definition order_invariant :: "interpreter \<Rightarrow> order \<Rightarrow> bool" where
  "order_invariant U row =
     (status row \<in> set STATUS_FLOW \<and>
      (case subtotals (items row) of
         Inl e \<Rightarrow> False
       | Inr ss \<Rightarrow> total_amount row = py_sum (compensated_sum U) ss))"

definition database_invariant :: "interpreter \<Rightarrow> database \<Rightarrow> bool" where
  "database_invariant U db = list_all (order_invariant U) (orders db)"

section \<open>The quantity submitted, in the words of the specification\<close>

text \<open>The quantity that a form submits for a menu item: the number in the field of
  the item, and zero when the field is missing or is not a number.\<close>

definition submitted_quantity :: "interpreter \<Rightarrow> form \<Rightarrow> menu_item \<Rightarrow> int" where
  "submitted_quantity U form_data item =
     (case form_data (py_str ''item_'' @ str_int (mi_id item)) of
        None \<Rightarrow> 0
      | Some s \<Rightarrow> (case py_int U s of Inl e \<Rightarrow> 0 | Inr n \<Rightarrow> n))"

section \<open>The total of an order, in the words of the specification\<close>


section \<open>The sales aggregator in the words of the specification\<close>




section \<open>States and requests for evaluation\<close>

text \<open>The database that a request leaves: an abort commits nothing.\<close>

definition database_after :: "database \<Rightarrow> outcome \<Rightarrow> database" where
  "database_after db out = (case out of Inl _ \<Rightarrow> db | Inr (db', _, _) \<Rightarrow> db')"

definition order_1 :: order where
  "order_1 = \<lparr>o_id = 1, table_id = 1, status = py_str ''pending'', total_amount = Finite 160,
              created_at = 1000, updated_at = 1000, requested_assistance = False,
              created_by_id = None, paid_at = None, payment_method = None,
              items = [\<lparr>menu_item_id = 1, quantity = 2, price = Finite 80\<rparr>]\<rparr>"

definition order_2 :: order where
  "order_2 = \<lparr>o_id = 2, table_id = 1, status = py_str ''paid'', total_amount = Finite 45,
              created_at = 3000, updated_at = 4000, requested_assistance = False,
              created_by_id = None, paid_at = Some 4001, payment_method = Some (py_str ''qr''),
              items = [\<lparr>menu_item_id = 3, quantity = 1, price = Finite 45\<rparr>]\<rparr>"

definition db_1 :: database where
  "db_1 = \<lparr>users = [], tables = [], menu = [], orders = [order_1]\<rparr>"

definition db_2 :: database where
  "db_2 = \<lparr>users = [], tables = [], menu = [], orders = [order_1, order_2]\<rparr>"

definition form_paid :: form where
  "form_paid = [py_str ''status'' \<mapsto> py_str ''paid'', py_str ''payment_method'' \<mapsto> py_str '' cash '']"

definition form_preparing :: form where
  "form_preparing = [py_str ''status'' \<mapsto> py_str ''preparing'']"

definition form_bogus :: form where
  "form_bogus = [py_str ''status'' \<mapsto> py_str ''bogus'']"

definition order_n :: "int \<Rightarrow> order" where
  "order_n k = order_1\<lparr>o_id := k, created_at := 1000 * k\<rparr>"

definition db_12 :: database where
  "db_12 = \<lparr>users = [], tables = [], menu = [],
            orders = map order_n [1, 2, 3, 4, 5, 6, 7, 8, 9, 10, 11, 12]\<rparr>"

definition item_a :: menu_item where
  "item_a = \<lparr>mi_id = 1, mi_name = py_str ''Tom Yum'', description = [], mi_price = Finite 120,
             category = Some (py_str ''Soup''), available = True\<rparr>"

definition item_b :: menu_item where
  "item_b = \<lparr>mi_id = 2, mi_name = py_str ''Wonton'', description = [], mi_price = Finite 90,
             category = Some (py_str ''Soup''), available = True\<rparr>"

definition item_c :: menu_item where
  "item_c = \<lparr>mi_id = 3, mi_name = py_str ''Iced Tea'', description = [], mi_price = Finite 45,
             category = Some (py_str ''Drinks''), available = True\<rparr>"

definition item_x :: menu_item where
  "item_x = \<lparr>mi_id = 4, mi_name = py_str ''Surprise'', description = [], mi_price = Finite 60,
             category = Some (py_str ''!!!''), available = True\<rparr>"

definition item_y :: menu_item where
  "item_y = \<lparr>mi_id = 5, mi_name = py_str ''Special'', description = [], mi_price = Finite 75,
             category = Some (py_str ''Section''), available = True\<rparr>"

definition table_1 :: dining_table where
  "table_1 = \<lparr>dt_id = 1, code = py_str ''T1'', dt_name = py_str ''Table 1''\<rparr>"




definition form_t1 :: form where
  "form_t1 = [py_str ''item_1'' \<mapsto> py_str ''2'', py_str ''item_2'' \<mapsto> py_str ''x'']"

definition db_seeded :: database where
  "db_seeded = seed_data empty_database"

definition db_ordered :: database where
  "db_ordered = database_after db_seeded
     (dispatch ascii_interpreter db_seeded None (Table_view (py_str ''t1'') POST form_t1 10 11))"

definition order_t1 :: order where
  "order_t1 = \<lparr>o_id = 1, table_id = 1, status = py_str ''pending'', total_amount = Finite 160,
              created_at = 11, updated_at = 10, requested_assistance = False,
              created_by_id = None, paid_at = None, payment_method = None,
              items = [\<lparr>menu_item_id = 1, quantity = 2, price = Finite 80\<rparr>]\<rparr>"












text \<open>A second order of the same table.\<close>

definition order_t2 :: order where
  "order_t2 = \<lparr>o_id = 2, table_id = 1, status = py_str ''pending'', total_amount = Finite 160,
              created_at = 21, updated_at = 20, requested_assistance = False,
              created_by_id = None, paid_at = None, payment_method = None,
              items = [\<lparr>menu_item_id = 1, quantity = 2, price = Finite 80\<rparr>]\<rparr>"

section \<open>The arithmetic of doubles\<close>

lemma halvings_bounds: "1 \<le> x \<Longrightarrow> 2 ^ halvings x \<le> x \<and> x < 2 ^ Suc (halvings x)"
proof (induction x rule: halvings.induct)
  case (1 x)
  show ?case
  proof (cases "x < 2")
    case True
    then show ?thesis using "1.prems" by (simp add: halvings.simps[of x])
  next
    case False
    then have "1 \<le> x / 2" by simp
    then have "2 ^ halvings (x / 2) \<le> x / 2 \<and> x / 2 < 2 ^ Suc (halvings (x / 2))"
      using "1.IH"[OF False] by simp
    then show ?thesis using False by (simp add: halvings.simps[of x])
  qed
qed

lemma doublings_bounds:
  "0 < x \<Longrightarrow> x < 1 \<Longrightarrow> 1 \<le> x * 2 ^ doublings x \<and> x * 2 ^ doublings x < 2"
proof (induction x rule: doublings.induct)
  case (1 x)
  show ?case
  proof (cases "1 \<le> 2 * x")
    case True
    have "doublings (2 * x) = 0"
      using True by (simp add: doublings.simps[of "2 * x"])
    then show ?thesis using "1.prems" True by (simp add: doublings.simps[of x])
  next
    case False
    have n: "\<not> (x \<le> 0 \<or> 1 \<le> x)" using "1.prems" by simp
    have "1 \<le> 2 * x * 2 ^ doublings (2 * x) \<and> 2 * x * 2 ^ doublings (2 * x) < 2"
      using "1.IH"[OF n] "1.prems" False by simp
    then show ?thesis using n by (simp add: doublings.simps[of x] mult.assoc mult.left_commute)
  qed
qed

lemma floor_log2_bounds:
  assumes "0 < x"
  shows "2 powi floor_log2 x \<le> x \<and> x < 2 powi (floor_log2 x + 1)"
proof (cases "1 \<le> x")
  case True
  have "2 powi (int (halvings x) + 1) = (2::rat) ^ Suc (halvings x)"
    by (simp add: power_int_add_1)
  then show ?thesis
    using halvings_bounds[OF True] True by (simp add: floor_log2_def)
next
  case False
  then have x1: "x < 1" by simp
  define n where "n = doublings x"
  have b: "1 \<le> x * 2 ^ n" "x * 2 ^ n < 2"
    using doublings_bounds[OF assms x1] by (simp_all add: n_def)
  have p: "2 powi (- int n) = 1 / (2::rat) ^ n"
    by (simp add: power_int_minus_divide)
  have q: "2 powi (1 - int n) = 2 / (2::rat) ^ n"
    using power_int_diff[of "2::rat" 1 "int n"] by simp
  have "1 / 2 ^ n \<le> x"
    using b(1) by (simp add: divide_le_eq)
  moreover have "x < 2 / 2 ^ n"
    using b(2) by (simp add: less_divide_eq)
  ultimately show ?thesis
    using False by (simp add: floor_log2_def n_def[symmetric] p q)
qed





lemma round_half_even_of_int: "round_half_even (of_int n) = n"
  by (simp add: round_half_even_def)

lemma fl_representable:
  assumes "x = of_int m * 2 powi e" and "\<bar>m\<bar> < 2 ^ 53" and "- 1074 \<le> e" and "\<bar>x\<bar> < 2 ^ 1024"
  shows "fl x = Finite x"
proof (cases "x = 0")
  case True
  then show ?thesis by (simp add: fl_def)
next
  case False
  define k where "k = floor_log2 \<bar>x\<bar>"
  define e' where "e' = max (k - 52) (- 1074)"
  have pos: "0 < \<bar>x\<bar>" using False by simp
  have lo: "2 powi k \<le> \<bar>x\<bar>"
    using floor_log2_bounds[OF pos] by (simp add: k_def)
  have "\<bar>x\<bar> = of_int \<bar>m\<bar> * 2 powi e"
    by (simp add: assms(1) abs_mult)
  moreover have "(of_int \<bar>m\<bar> :: rat) < 2 ^ 53"
    using assms(2) by (metis of_int_less_numeral_power_cancel_iff)
  ultimately have "\<bar>x\<bar> < 2 ^ 53 * 2 powi e"
    by (simp add: mult_strict_right_mono)
  also have "\<dots> = 2 powi (53 + e)"
    by (simp add: power_int_add)
  finally have "(2::rat) powi k < 2 powi (53 + e)"
    using lo by linarith
  then have "k < 53 + e"
    using power_int_increasing[of "53 + e" k "2::rat"] by (cases "k < 53 + e") auto
  then have le: "e' \<le> e"
    using assms(3) by (simp add: e'_def)
  have "2 powi e = (2::rat) powi (e - e') * 2 powi e'"
    using power_int_add[of "2::rat" "e - e'" e'] by simp
  also have "(2::rat) powi (e - e') = of_int (2 ^ nat (e - e'))"
    using le by (simp add: power_int_def)
  finally have q: "x / 2 powi e' = of_int (m * 2 ^ nat (e - e'))"
    by (simp add: assms(1))
  have r: "round_half_even (x / 2 powi e') = m * 2 ^ nat (e - e')"
    unfolding q by (rule round_half_even_of_int)
  have y: "of_int (m * 2 ^ nat (e - e')) * 2 powi e' = x"
    using q by (simp add: field_simps)
  show ?thesis
    using False assms(4) r y by (simp add: fl_def Let_def k_def[symmetric] e'_def[symmetric])
qed

lemma fl_of_int: "\<bar>n\<bar> < 2 ^ 53 \<Longrightarrow> fl (of_int n) = Finite (of_int n)"
proof -
  assume a: "\<bar>n\<bar> < 2 ^ 53"
  have "\<bar>of_int n :: rat\<bar> < 2 ^ 53"
    using a by (metis of_int_abs of_int_less_numeral_power_cancel_iff)
  also have "(2::rat) ^ 53 < 2 ^ 1024"
    by simp
  finally show ?thesis
    using a by (intro fl_representable[of _ n 0]) simp_all
qed





section \<open>The order aggregate\<close>

lemma find_o_id:
  "find (\<lambda>row. o_id row = k) rows = Some order \<Longrightarrow> o_id order = k \<and> order \<in> set rows"
  by (induction rows) (auto split: if_splits)

lemma find_update_order:
  assumes "find (\<lambda>row. o_id row = k) rows = Some order" and "o_id order' = k"
  shows "find (\<lambda>row. o_id row = k)
           (map (\<lambda>row. if o_id row = o_id order' then order' else row) rows) = Some order'"
  using assms by (induction rows) (auto split: if_splits)

text \<open>
  Claim C8. An order is inactive exactly when its status is \<open>paid\<close> or \<open>cancelled\<close>; with
  each of the four other statuses of the pipeline it is active.
\<close>

theorem is_active_iff:
  "(\<not> is_active order) = (status order = py_str ''paid'' \<or> status order = py_str ''cancelled'')
   \<and> is_active (order\<lparr>status := py_str ''pending''\<rparr>)
   \<and> is_active (order\<lparr>status := py_str ''preparing''\<rparr>)
   \<and> is_active (order\<lparr>status := py_str ''served''\<rparr>)
   \<and> is_active (order\<lparr>status := py_str ''completed''\<rparr>)"
  by (simp add: is_active_def py_str_def)

text \<open>
  Claim C3. When the status submitted for an existing order is not one of the five of
  \<open>STATUS_FLOW\<close>, the request flashes the message of an invalid status and the database
  is the one before the request: the order keeps its status, \<open>updated_at\<close>, \<open>paid_at\<close> and
  \<open>payment_method\<close>.
\<close>

theorem invalid_status_rejected:
  assumes "find (\<lambda>row. o_id row = order_id) (orders db) = Some order"
      and "form_data (py_str ''status'') = Some status'"
      and "status' \<notin> set STATUS_FLOW"
  shows "staff_update_status U db order_id form_data now_status now_paid =
           Inr (db, [(status_invalid, danger)], redirect_staff_order_detail order_id)"
  using assms find_o_id[OF assms(1)] by (simp add: staff_update_status_def)

theorem invalid_status_rejected_witness:
  "find (\<lambda>row. o_id row = 1) (orders db_1) = Some order_1
   \<and> form_bogus (py_str ''status'') = Some (py_str ''bogus'')
   \<and> py_str ''bogus'' \<notin> set STATUS_FLOW
   \<and> staff_update_status ascii_interpreter db_1 1 form_bogus 2000 2001 =
       Inr (db_1, [(status_invalid, danger)], redirect_staff_order_detail 1)"
proof -
  have a: "find (\<lambda>row. o_id row = 1) (orders db_1) = Some order_1"
    by (simp add: db_1_def order_1_def)
  have b: "form_bogus (py_str ''status'') = Some (py_str ''bogus'')"
    by (simp add: form_bogus_def)
  have c: "py_str ''bogus'' \<notin> set STATUS_FLOW"
    by (simp add: STATUS_FLOW_def py_str_def)
  show ?thesis
    using a b c
      invalid_status_rejected[of 1 db_1 order_1 form_bogus "py_str ''bogus''" ascii_interpreter 2000 2001]
    by simp
qed

text \<open>
  Claim C2, as the code has it. A transition of an existing order to a status of
  \<open>STATUS_FLOW\<close> writes the order back with that status. To \<open>paid\<close>: \<open>paid_at\<close> is the
  reading of the clock, and \<open>payment_method\<close> is the value submitted with the white space
  at both ends removed, or \<open>None\<close> when nothing is left of it or none was submitted. To
  any other status: \<open>paid_at\<close> and \<open>payment_method\<close> are \<open>None\<close>, whatever they were.
\<close>

theorem transition_sets_or_clears_payment:
  assumes "find (\<lambda>row. o_id row = order_id) (orders db) = Some order"
      and "form_data (py_str ''status'') = Some status'"
      and "status' \<in> set STATUS_FLOW"
  shows "\<exists>order'. staff_update_status U db order_id form_data now_status now_paid =
                     Inr (update_order db order', [(status_updated, success)],
                          redirect_staff_order_detail order_id)
           \<and> find (\<lambda>row. o_id row = order_id) (orders (update_order db order')) = Some order'
           \<and> status order' = status'
           \<and> paid_at order' = (if status' = py_str ''paid'' then Some now_paid else None)
           \<and> payment_method order' =
               (if status' = py_str ''paid''
                   \<and> py_strip U (form_get form_data ''payment_method'' []) \<noteq> []
                then Some (py_strip U (form_get form_data ''payment_method'' [])) else None)"
proof -
  define pm where "pm = py_strip U (form_get form_data ''payment_method'' [])"
  define order' where "order' =
    (if status' = py_str ''paid''
     then order\<lparr>status := status', updated_at := now_status, paid_at := Some now_paid,
                payment_method := (if pm = [] then None else Some pm)\<rparr>
     else order\<lparr>status := status', updated_at := now_status, payment_method := None,
                paid_at := None\<rparr>)"
  have k: "o_id order = order_id"
    using find_o_id[OF assms(1)] by simp
  then have k': "o_id order' = order_id"
    by (simp add: order'_def)
  have run: "staff_update_status U db order_id form_data now_status now_paid =
               Inr (update_order db order', [(status_updated, success)],
                    redirect_staff_order_detail order_id)"
    using assms k by (simp add: staff_update_status_def Let_def order'_def pm_def)
  have found: "find (\<lambda>row. o_id row = order_id) (orders (update_order db order')) = Some order'"
    using find_update_order[OF assms(1) k'] by (simp add: update_order_def)
  have fields: "status order' = status'
      \<and> paid_at order' = (if status' = py_str ''paid'' then Some now_paid else None)
      \<and> payment_method order' = (if status' = py_str ''paid'' \<and> pm \<noteq> [] then Some pm else None)"
    by (simp add: order'_def)
  show ?thesis
    using run found fields unfolding pm_def by blast
qed

theorem transition_sets_or_clears_payment_witness:
  "find (\<lambda>row. o_id row = 1) (orders db_1) = Some order_1
   \<and> form_paid (py_str ''status'') = Some (py_str ''paid'')
   \<and> py_str ''paid'' \<in> set STATUS_FLOW
   \<and> (\<exists>order'. staff_update_status ascii_interpreter db_1 1 form_paid 2000 2001 =
                     Inr (update_order db_1 order', [(status_updated, success)],
                          redirect_staff_order_detail 1)
           \<and> find (\<lambda>row. o_id row = 1) (orders (update_order db_1 order')) = Some order'
           \<and> status order' = py_str ''paid''
           \<and> paid_at order' = Some 2001
           \<and> payment_method order' = Some (py_str ''cash''))
   \<and> find (\<lambda>row. o_id row = 2) (orders db_2) = Some order_2
   \<and> form_preparing (py_str ''status'') = Some (py_str ''preparing'')
   \<and> py_str ''preparing'' \<in> set STATUS_FLOW
   \<and> (\<exists>order'. staff_update_status ascii_interpreter db_2 2 form_preparing 5000 5001 =
                     Inr (update_order db_2 order', [(status_updated, success)],
                          redirect_staff_order_detail 2)
           \<and> find (\<lambda>row. o_id row = 2) (orders (update_order db_2 order')) = Some order'
           \<and> status order' = py_str ''preparing''
           \<and> paid_at order' = None
           \<and> payment_method order' = None)"
proof -
  have a: "find (\<lambda>row. o_id row = 1) (orders db_1) = Some order_1"
    by (simp add: db_1_def order_1_def)
  have b: "form_paid (py_str ''status'') = Some (py_str ''paid'')"
    by (simp add: form_paid_def py_str_def)
  have c: "py_str ''paid'' \<in> set STATUS_FLOW"
    by (simp add: STATUS_FLOW_def)
  have d: "py_strip ascii_interpreter (form_get form_paid ''payment_method'' []) = py_str ''cash''"
    by (simp add: form_paid_def form_get_def py_strip_def py_isspace_def py_str_def)
  have e: "py_str ''cash'' \<noteq> []"
    by (simp add: py_str_def)
  have a2: "find (\<lambda>row. o_id row = 2) (orders db_2) = Some order_2"
    by (simp add: db_2_def order_1_def order_2_def)
  have b2: "form_preparing (py_str ''status'') = Some (py_str ''preparing'')"
    by (simp add: form_preparing_def)
  have c2: "py_str ''preparing'' \<in> set STATUS_FLOW"
    by (simp add: STATUS_FLOW_def)
  have f2: "py_str ''preparing'' \<noteq> py_str ''paid''"
    by (simp add: py_str_def)
  have first: "\<exists>order'. staff_update_status ascii_interpreter db_1 1 form_paid 2000 2001 =
                     Inr (update_order db_1 order', [(status_updated, success)],
                          redirect_staff_order_detail 1)
           \<and> find (\<lambda>row. o_id row = 1) (orders (update_order db_1 order')) = Some order'
           \<and> status order' = py_str ''paid''
           \<and> paid_at order' = Some 2001
           \<and> payment_method order' = Some (py_str ''cash'')"
    using a b c d e
      transition_sets_or_clears_payment[of 1 db_1 order_1 form_paid "py_str ''paid''"
        ascii_interpreter 2000 2001]
    by simp
  have second: "\<exists>order'. staff_update_status ascii_interpreter db_2 2 form_preparing 5000 5001 =
                     Inr (update_order db_2 order', [(status_updated, success)],
                          redirect_staff_order_detail 2)
           \<and> find (\<lambda>row. o_id row = 2) (orders (update_order db_2 order')) = Some order'
           \<and> status order' = py_str ''preparing''
           \<and> paid_at order' = None
           \<and> payment_method order' = None"
    using a2 b2 c2 f2
      transition_sets_or_clears_payment[of 2 db_2 order_2 form_preparing "py_str ''preparing''"
        ascii_interpreter 5000 5001]
    by simp
  show ?thesis
    using a b c a2 b2 c2 first second by blast
qed

text \<open>
  The claim as it is written fails where the value submitted has white space around it:
  the form submits \<open>cash\<close> between two spaces, and the order stores \<open>cash\<close>.
\<close>

theorem payment_method_stripped_counterexample:
  "form_paid (py_str ''payment_method'') = Some (py_str '' cash '')
   \<and> map payment_method (orders (database_after db_1
         (staff_update_status ascii_interpreter db_1 1 form_paid 2000 2001))) = [Some (py_str ''cash'')]
   \<and> py_str ''cash'' \<noteq> py_str '' cash ''"
  by (simp add: form_paid_def db_1_def order_1_def staff_update_status_def database_after_def
      update_order_def STATUS_FLOW_def py_str_def form_get_def py_strip_def py_isspace_def Let_def)

section \<open>The queries of the dashboard\<close>






lemma sorted_wrt_sort_key_desc:
  "sorted_wrt (\<lambda>a b. created_at b \<le> created_at a) (sort_key (\<lambda>row. - created_at row) xs)"
proof -
  have "sorted (map (\<lambda>row. - created_at row) (sort_key (\<lambda>row. - created_at row) xs))"
    by (rule sorted_sort_key)
  then show ?thesis
    by (simp add: sorted_map)
qed

text \<open>
  Claim C4, as the code has it. The orders of the dashboard are orders whose status is
  not \<open>paid\<close>, from the newest to the oldest, ten at most: as many as there are such
  orders when these are fewer than ten, and no order left out is newer than one shown.
\<close>

theorem open_orders_newest_unpaid:
  "set (open_orders db) \<subseteq> {row \<in> set (orders db). status row \<noteq> py_str ''paid''}
   \<and> sorted_wrt (\<lambda>a b. created_at b \<le> created_at a) (open_orders db)
   \<and> length (open_orders db) =
       min 10 (length (filter (\<lambda>row. status row \<noteq> py_str ''paid'') (orders db)))
   \<and> (\<forall>row \<in> set (orders db). status row \<noteq> py_str ''paid'' \<and> row \<notin> set (open_orders db) \<longrightarrow>
         (\<forall>shown \<in> set (open_orders db). created_at row \<le> created_at shown))"
proof -
  define xs where "xs = sort_key (\<lambda>row. - created_at row)
                           (filter (\<lambda>row. status row \<noteq> py_str ''paid'') (orders db))"
  have oo: "open_orders db = take 10 xs"
    by (simp add: open_orders_def xs_def)
  have sx: "set xs = {row \<in> set (orders db). status row \<noteq> py_str ''paid''}"
    by (auto simp: xs_def)
  have a: "set (open_orders db) \<subseteq> {row \<in> set (orders db). status row \<noteq> py_str ''paid''}"
    unfolding oo sx[symmetric] by (rule set_take_subset)
  have srt: "sorted_wrt (\<lambda>a b. created_at b \<le> created_at a) xs"
    unfolding xs_def by (rule sorted_wrt_sort_key_desc)
  have b: "sorted_wrt (\<lambda>a b. created_at b \<le> created_at a) (open_orders db)"
    unfolding oo using srt by (rule sorted_wrt_take)
  have c: "length (open_orders db) =
       min 10 (length (filter (\<lambda>row. status row \<noteq> py_str ''paid'') (orders db)))"
    by (simp add: oo xs_def min.commute)
  have d: "\<forall>row \<in> set (orders db). status row \<noteq> py_str ''paid'' \<and> row \<notin> set (open_orders db) \<longrightarrow>
         (\<forall>shown \<in> set (open_orders db). created_at row \<le> created_at shown)"
  proof (intro ballI impI)
    fix row shown
    assume r: "row \<in> set (orders db)"
      and h: "status row \<noteq> py_str ''paid'' \<and> row \<notin> set (open_orders db)"
      and s: "shown \<in> set (open_orders db)"
    have "row \<in> set xs" using r h sx by simp
    then have "row \<in> set (take 10 xs) \<union> set (drop 10 xs)"
      by (metis append_take_drop_id set_append)
    then have "row \<in> set (drop 10 xs)" using h oo by simp
    moreover have "shown \<in> set (take 10 xs)" using s oo by simp
    ultimately show "created_at row \<le> created_at shown"
      using srt sorted_wrt_append[of "\<lambda>a b. created_at b \<le> created_at a" "take 10 xs" "drop 10 xs"]
      by simp
  qed
  show ?thesis using a b c d by blast
qed

lemma order_n_fields:
  "o_id (order_n k) = k" "created_at (order_n k) = 1000 * k" "status (order_n k) = py_str ''pending''"
  by (simp_all add: order_n_def order_1_def)

lemma order_n_eq: "(order_n a = order_n b) = (a = b)"
  using order_n_fields(1) by metis

lemma open_orders_db_12: "open_orders db_12 = map order_n [12, 11, 10, 9, 8, 7, 6, 5, 4, 3]"
  by (simp add: open_orders_def db_12_def order_n_fields py_str_def)

theorem open_orders_newest_unpaid_witness:
  "order_n 1 \<in> set (orders db_12) \<and> status (order_n 1) \<noteq> py_str ''paid''
   \<and> order_n 1 \<notin> set (open_orders db_12)
   \<and> order_n 12 \<in> set (open_orders db_12)
   \<and> created_at (order_n 1) \<le> created_at (order_n 12)
   \<and> length (open_orders db_12) = 10"
proof -
  have a: "order_n 1 \<in> set (orders db_12)"
    by (simp add: db_12_def)
  have b: "status (order_n 1) \<noteq> py_str ''paid''"
    by (simp add: order_n_fields py_str_def)
  have c: "order_n 1 \<notin> set (open_orders db_12)"
    by (simp add: open_orders_db_12 order_n_eq)
  have d: "order_n 12 \<in> set (open_orders db_12)"
    by (simp add: open_orders_db_12)
  have e: "\<forall>shown \<in> set (open_orders db_12). created_at (order_n 1) \<le> created_at shown"
    using a b c open_orders_newest_unpaid[of db_12] by blast
  have f: "length (open_orders db_12) = 10"
    using open_orders_newest_unpaid[of db_12] by (simp add: open_orders_db_12)
  have g: "created_at (order_n 1) \<le> created_at (order_n 12)"
    using d e by blast
  show ?thesis
    using a b c d f g by blast
qed

text \<open>
  The claim as it is written fails on a paid order: \<open>order_2\<close> is the newest of the two
  orders of \<open>db_2\<close>, and the dashboard does not show it.
\<close>

theorem open_orders_excludes_paid_counterexample:
  "order_2 \<in> set (orders db_2) \<and> length (orders db_2) \<le> 10
   \<and> created_at order_1 < created_at order_2 \<and> order_2 \<notin> set (open_orders db_2)"
  by (simp add: db_2_def open_orders_def order_1_def order_2_def py_str_def)


section \<open>The sections of the menu\<close>

lemma str_nat_not_Nil: "str_nat n \<noteq> []"
  by (subst str_nat.simps) simp

lemma str_nat_inj: "str_nat n = str_nat m \<Longrightarrow> n = m"
proof (induction n arbitrary: m rule: str_nat.induct)
  case (1 n)
  show ?case
  proof (cases "n < 10")
    case True
    show ?thesis
    proof (cases "m < 10")
      case True
      with \<open>n < 10\<close> "1.prems" show ?thesis
        by (simp add: str_nat.simps[of n] str_nat.simps[of m])
    next
      case False
      with \<open>n < 10\<close> "1.prems" str_nat_not_Nil[of "m div 10"] show ?thesis
        by (simp add: str_nat.simps[of n] str_nat.simps[of m])
    qed
  next
    case False
    show ?thesis
    proof (cases "m < 10")
      case True
      with \<open>\<not> n < 10\<close> "1.prems" str_nat_not_Nil[of "n div 10"] show ?thesis
        by (simp add: str_nat.simps[of n] str_nat.simps[of m])
    next
      case mf: False
      from False mf "1.prems"
      have e: "str_nat (n div 10) = str_nat (m div 10) \<and> n mod 10 = m mod 10"
        by (simp add: str_nat.simps[of n] str_nat.simps[of m])
      then have "n div 10 = m div 10"
        using "1.IH"[OF False] by blast
      with e show ?thesis
        by (metis div_mult_mod_eq)
    qed
  qed
qed

lemma loop_opens:
  assumes "secs = [] \<or> name (last secs) \<noteq> category_name item"
  shows "menu_sections_loop U (item # rest) secs idx =
           menu_sections_loop U rest
             (secs @ [\<lparr>name = category_name item,
                       anchor = (if slugify U (category_name item) = py_str ''section''
                                 then py_str ''section-'' @ str_nat idx
                                 else slugify U (category_name item)),
                       section_items = [item]\<rparr>])
             (if slugify U (category_name item) = py_str ''section'' then idx + 1 else idx)"
  using assms by (auto simp: Let_def)

lemma loop_same:
  assumes "name s = category_name item"
  shows "menu_sections_loop U (item # rest) (ss @ [s]) idx =
           menu_sections_loop U rest (ss @ [s\<lparr>section_items := section_items s @ [item]\<rparr>]) idx"
  using assms by (simp add: Let_def)

lemma loop_grouping:
  assumes "\<forall>s \<in> set secs. section_items s \<noteq> [] \<and> (\<forall>m \<in> set (section_items s). category_name m = name s)"
      and "distinct_adj (map name secs)"
  shows "(\<forall>s \<in> set (menu_sections_loop U xs secs idx).
             section_items s \<noteq> [] \<and> (\<forall>m \<in> set (section_items s). category_name m = name s))
         \<and> distinct_adj (map name (menu_sections_loop U xs secs idx))
         \<and> concat (map section_items (menu_sections_loop U xs secs idx)) =
             concat (map section_items secs) @ xs"
  using assms
proof (induction xs arbitrary: secs idx)
  case Nil
  then show ?case by simp
next
  case (Cons item rest)
  show ?case
  proof (cases "secs = [] \<or> name (last secs) \<noteq> category_name item")
    case True
    define new where "new = \<lparr>name = category_name item,
                       anchor = (if slugify U (category_name item) = py_str ''section''
                                 then py_str ''section-'' @ str_nat idx
                                 else slugify U (category_name item)),
                       section_items = [item]\<rparr>"
    have a: "\<forall>s \<in> set (secs @ [new]). section_items s \<noteq> [] \<and> (\<forall>m \<in> set (section_items s). category_name m = name s)"
      using Cons.prems(1) by (auto simp: new_def)
    have b: "distinct_adj (map name (secs @ [new]))"
      using Cons.prems(2) True by (auto simp: new_def distinct_adj_append_iff last_map)
    have c: "concat (map section_items (secs @ [new])) = concat (map section_items secs) @ [item]"
      by (simp add: new_def)
    show ?thesis
      using Cons.IH[OF a b] c unfolding loop_opens[OF True] new_def[symmetric] by simp
  next
    case False
    then obtain ss s where secs: "secs = ss @ [s]" and nm: "name s = category_name item"
      by (metis append_butlast_last_id last_snoc)
    define s' where "s' = s\<lparr>section_items := section_items s @ [item]\<rparr>"
    have a: "\<forall>x \<in> set (ss @ [s']). section_items x \<noteq> [] \<and> (\<forall>m \<in> set (section_items x). category_name m = name x)"
      using Cons.prems(1) nm by (auto simp: secs s'_def)
    have b: "distinct_adj (map name (ss @ [s']))"
      using Cons.prems(2) by (simp add: secs s'_def)
    have c: "concat (map section_items (ss @ [s'])) = concat (map section_items secs) @ [item]"
      by (simp add: secs s'_def)
    show ?thesis
      using Cons.IH[OF a b] c unfolding secs loop_same[OF nm] s'_def[symmetric] by simp
  qed
qed

lemmas slug_simps = slugify_def py_str_def py_strip_def py_lower_def py_isspace_def
  strip_nonword_def re_word_def py_isalnum_def upt_rec

lemma slugify_Soup: "slugify U (py_str ''Soup'') = py_str ''soup''"
  by (simp add: slug_simps)
lemma slugify_Drinks: "slugify U (py_str ''Drinks'') = py_str ''drinks''"
  by (simp add: slug_simps)
lemma slugify_Section: "slugify U (py_str ''Section'') = py_str ''section''"
  by (simp add: slug_simps)
lemma slugify_marks: "slugify U (py_str ''!!!'') = py_str ''section''"
  by (simp add: slug_simps)
lemma slugify_blank: "slugify U (py_str ''   '') = py_str ''section''"
  by (simp add: slug_simps)

text \<open>
  Claim C6. The sections are the runs of neighbouring items with the same label, in the
  order of the menu: put end to end the sections give the menu back, no section is
  empty, every item of a section has the label of the section, and two sections that
  follow one another have different labels. An item without category, or with the empty
  one, has the fixed label. Three items with the categories Soup, Soup, Drinks give the
  two sections Soup and Drinks; in the order Soup, Drinks, Soup they give three.
\<close>

theorem sections_group_adjacent_items:
  "concat (map section_items (menu_sections_of U menu_items)) = menu_items
   \<and> (\<forall>s \<in> set (menu_sections_of U menu_items).
         section_items s \<noteq> [] \<and> (\<forall>m \<in> set (section_items s). category_name m = name s))
   \<and> distinct_adj (map name (menu_sections_of U menu_items))
   \<and> category_name (m\<lparr>category := None\<rparr>) = fallback_label
   \<and> category_name (m\<lparr>category := Some []\<rparr>) = fallback_label
   \<and> menu_sections_of U
        [a\<lparr>category := Some (py_str ''Soup'')\<rparr>, b\<lparr>category := Some (py_str ''Soup'')\<rparr>,
         c\<lparr>category := Some (py_str ''Drinks'')\<rparr>] =
       [\<lparr>name = py_str ''Soup'', anchor = py_str ''soup'',
         section_items = [a\<lparr>category := Some (py_str ''Soup'')\<rparr>, b\<lparr>category := Some (py_str ''Soup'')\<rparr>]\<rparr>,
        \<lparr>name = py_str ''Drinks'', anchor = py_str ''drinks'',
         section_items = [c\<lparr>category := Some (py_str ''Drinks'')\<rparr>]\<rparr>]
   \<and> map name (menu_sections_of U
        [a\<lparr>category := Some (py_str ''Soup'')\<rparr>, c\<lparr>category := Some (py_str ''Drinks'')\<rparr>,
         b\<lparr>category := Some (py_str ''Soup'')\<rparr>]) =
       [py_str ''Soup'', py_str ''Drinks'', py_str ''Soup'']"
proof -
  have g: "(\<forall>s \<in> set (menu_sections_of U menu_items).
             section_items s \<noteq> [] \<and> (\<forall>m \<in> set (section_items s). category_name m = name s))
         \<and> distinct_adj (map name (menu_sections_of U menu_items))
         \<and> concat (map section_items (menu_sections_of U menu_items)) = menu_items"
    using loop_grouping[of "[]" U menu_items 1] by (simp add: menu_sections_of_def)
  have f: "category_name (m\<lparr>category := None\<rparr>) = fallback_label
           \<and> category_name (m\<lparr>category := Some []\<rparr>) = fallback_label"
    by (simp add: category_name_def)
  have cs: "category_name (x\<lparr>category := Some (py_str ''Soup'')\<rparr>) = py_str ''Soup''" for x :: menu_item
    by (simp add: category_name_def py_str_def)
  have cd: "category_name (x\<lparr>category := Some (py_str ''Drinks'')\<rparr>) = py_str ''Drinks''" for x :: menu_item
    by (simp add: category_name_def py_str_def)
  have ne: "py_str ''Soup'' \<noteq> py_str ''Drinks''" "py_str ''soup'' \<noteq> py_str ''section''"
    "py_str ''drinks'' \<noteq> py_str ''section''"
    by (simp_all add: py_str_def)
  have e1: "menu_sections_of U
        [a\<lparr>category := Some (py_str ''Soup'')\<rparr>, b\<lparr>category := Some (py_str ''Soup'')\<rparr>,
         c\<lparr>category := Some (py_str ''Drinks'')\<rparr>] =
       [\<lparr>name = py_str ''Soup'', anchor = py_str ''soup'',
         section_items = [a\<lparr>category := Some (py_str ''Soup'')\<rparr>, b\<lparr>category := Some (py_str ''Soup'')\<rparr>]\<rparr>,
        \<lparr>name = py_str ''Drinks'', anchor = py_str ''drinks'',
         section_items = [c\<lparr>category := Some (py_str ''Drinks'')\<rparr>]\<rparr>]"
    using ne by (simp add: menu_sections_of_def Let_def cs cd slugify_Soup slugify_Drinks)
  have e2: "map name (menu_sections_of U
        [a\<lparr>category := Some (py_str ''Soup'')\<rparr>, c\<lparr>category := Some (py_str ''Drinks'')\<rparr>,
         b\<lparr>category := Some (py_str ''Soup'')\<rparr>]) =
       [py_str ''Soup'', py_str ''Drinks'', py_str ''Soup'']"
    using ne by (simp add: menu_sections_of_def Let_def cs cd slugify_Soup slugify_Drinks)
  show ?thesis
    using g f e1 e2 by blast
qed

theorem sections_group_adjacent_items_witness:
  "menu_sections_of ascii_interpreter [item_a, item_b, item_c] =
     [\<lparr>name = py_str ''Soup'', anchor = py_str ''soup'', section_items = [item_a, item_b]\<rparr>,
      \<lparr>name = py_str ''Drinks'', anchor = py_str ''drinks'', section_items = [item_c]\<rparr>]
   \<and> concat (map section_items (menu_sections_of ascii_interpreter [item_a, item_b, item_c])) =
       [item_a, item_b, item_c]
   \<and> distinct_adj (map name (menu_sections_of ascii_interpreter [item_a, item_b, item_c]))
   \<and> category_name item_a = py_str ''Soup''"
proof -
  have a: "item_a\<lparr>category := Some (py_str ''Soup'')\<rparr> = item_a"
    by (simp add: item_a_def)
  have b: "item_b\<lparr>category := Some (py_str ''Soup'')\<rparr> = item_b"
    by (simp add: item_b_def)
  have c: "item_c\<lparr>category := Some (py_str ''Drinks'')\<rparr> = item_c"
    by (simp add: item_c_def)
  have d: "category_name item_a = py_str ''Soup''"
    by (simp add: category_name_def item_a_def py_str_def)
  show ?thesis
    using d sections_group_adjacent_items[of ascii_interpreter "[item_a, item_b, item_c]"
        item_a item_a item_b item_c]
    unfolding a b c by blast
qed

lemma loop_anchors:
  assumes "1 \<le> idx"
      and "map anchor (filter (\<lambda>s. slugify U (name s) = py_str ''section'') secs) =
             map (\<lambda>k. py_str ''section-'' @ str_nat k) [1..<idx]"
      and "\<forall>s \<in> set secs. slugify U (name s) \<noteq> py_str ''section'' \<longrightarrow> anchor s = slugify U (name s)"
  shows "\<exists>n\<ge>1. map anchor (filter (\<lambda>s. slugify U (name s) = py_str ''section'')
                               (menu_sections_loop U xs secs idx)) =
                  map (\<lambda>k. py_str ''section-'' @ str_nat k) [1..<n]
             \<and> (\<forall>s \<in> set (menu_sections_loop U xs secs idx).
                   slugify U (name s) \<noteq> py_str ''section'' \<longrightarrow> anchor s = slugify U (name s))"
  using assms
proof (induction xs arbitrary: secs idx)
  case Nil
  then show ?case by auto
next
  case (Cons item rest)
  show ?case
  proof (cases "secs = [] \<or> name (last secs) \<noteq> category_name item")
    case True
    show ?thesis
    proof (cases "slugify U (category_name item) = py_str ''section''")
      case numbered: True
      define new where "new = \<lparr>name = category_name item, anchor = py_str ''section-'' @ str_nat idx,
                               section_items = [item]\<rparr>"
      have a: "1 \<le> idx + 1" by simp
      have b: "map anchor (filter (\<lambda>s. slugify U (name s) = py_str ''section'') (secs @ [new])) =
                 map (\<lambda>k. py_str ''section-'' @ str_nat k) [1..<idx + 1]"
        using Cons.prems(1,2) numbered by (simp add: new_def)
      have c: "\<forall>s \<in> set (secs @ [new]). slugify U (name s) \<noteq> py_str ''section'' \<longrightarrow>
                 anchor s = slugify U (name s)"
        using Cons.prems(3) numbered by (auto simp: new_def)
      show ?thesis
        using Cons.IH[OF a b c] numbered unfolding loop_opens[OF True] new_def by simp
    next
      case plain: False
      define new where "new = \<lparr>name = category_name item, anchor = slugify U (category_name item),
                               section_items = [item]\<rparr>"
      have b: "map anchor (filter (\<lambda>s. slugify U (name s) = py_str ''section'') (secs @ [new])) =
                 map (\<lambda>k. py_str ''section-'' @ str_nat k) [1..<idx]"
        using Cons.prems(2) plain by (simp add: new_def)
      have c: "\<forall>s \<in> set (secs @ [new]). slugify U (name s) \<noteq> py_str ''section'' \<longrightarrow>
                 anchor s = slugify U (name s)"
        using Cons.prems(3) by (auto simp: new_def)
      show ?thesis
        using Cons.IH[OF Cons.prems(1) b c] plain unfolding loop_opens[OF True] new_def by simp
    qed
  next
    case False
    then obtain ss s where secs: "secs = ss @ [s]" and nm: "name s = category_name item"
      by (metis append_butlast_last_id last_snoc)
    define s' where "s' = s\<lparr>section_items := section_items s @ [item]\<rparr>"
    have b: "map anchor (filter (\<lambda>s. slugify U (name s) = py_str ''section'') (ss @ [s'])) =
               map (\<lambda>k. py_str ''section-'' @ str_nat k) [1..<idx]"
      using Cons.prems(2) by (cases "slugify U (name s) = py_str ''section''") (simp_all add: secs s'_def)
    have c: "\<forall>x \<in> set (ss @ [s']). slugify U (name x) \<noteq> py_str ''section'' \<longrightarrow>
               anchor x = slugify U (name x)"
      using Cons.prems(3) by (auto simp: secs s'_def)
    show ?thesis
      using Cons.IH[OF Cons.prems(1) b c] unfolding secs loop_same[OF nm] s'_def by simp
  qed
qed

lemma fallback_anchor_inj: "inj (\<lambda>k. py_str ''section-'' @ str_nat k)"
  by (auto simp: inj_def dest: str_nat_inj)

lemma fallback_anchor_not_section: "py_str ''section-'' @ x \<noteq> py_str ''section''"
  by (simp add: py_str_def)

text \<open>
  Claim C10. No section has the anchor \<open>section\<close>. The sections whose label has the slug
  \<open>section\<close> have, in their order, the anchors \<open>section-1\<close>, \<open>section-2\<close> and so on, which
  differ from one another; every other section has the slug of its label. A category
  named \<open>Section\<close> has the slug \<open>section\<close>, as one of punctuation marks or of blanks has.
\<close>

theorem anchors_never_plain_section:
  "(\<forall>s \<in> set (menu_sections_of U menu_items). anchor s \<noteq> py_str ''section'')
   \<and> map anchor (filter (\<lambda>s. slugify U (name s) = py_str ''section'') (menu_sections_of U menu_items)) =
       map (\<lambda>k. py_str ''section-'' @ str_nat k)
         [1..<Suc (length (filter (\<lambda>s. slugify U (name s) = py_str ''section'')
                             (menu_sections_of U menu_items)))]
   \<and> distinct (map anchor (filter (\<lambda>s. slugify U (name s) = py_str ''section'')
                              (menu_sections_of U menu_items)))
   \<and> (\<forall>s \<in> set (menu_sections_of U menu_items).
         slugify U (name s) \<noteq> py_str ''section'' \<longrightarrow> anchor s = slugify U (name s))
   \<and> slugify U (py_str ''Section'') = py_str ''section''
   \<and> slugify U (py_str ''!!!'') = py_str ''section''
   \<and> slugify U (py_str ''   '') = py_str ''section''"
proof -
  define secs where "secs = menu_sections_of U menu_items"
  define fb where "fb = filter (\<lambda>s. slugify U (name s) = py_str ''section'') secs"
  obtain n where n: "1 \<le> n"
    and m: "map anchor fb = map (\<lambda>k. py_str ''section-'' @ str_nat k) [1..<n]"
    and o: "\<forall>s \<in> set secs. slugify U (name s) \<noteq> py_str ''section'' \<longrightarrow> anchor s = slugify U (name s)"
    using loop_anchors[of 1 U "[]" menu_items]
    unfolding secs_def fb_def menu_sections_of_def by auto
  have "length fb = n - 1"
    using arg_cong[OF m, of length] by simp
  then have len: "n = Suc (length fb)"
    using n by simp
  have d: "distinct (map anchor fb)"
    unfolding m using fallback_anchor_inj by (simp add: distinct_map inj_on_def inj_def)
  have ns: "\<forall>s \<in> set secs. anchor s \<noteq> py_str ''section''"
  proof
    fix s assume s: "s \<in> set secs"
    show "anchor s \<noteq> py_str ''section''"
    proof (cases "slugify U (name s) = py_str ''section''")
      case True
      then have "s \<in> set fb" using s by (simp add: fb_def)
      then have "anchor s \<in> set (map anchor fb)" by simp
      then obtain k where "anchor s = py_str ''section-'' @ str_nat k"
        unfolding m by auto
      then show ?thesis by (simp add: fallback_anchor_not_section)
    next
      case False
      then show ?thesis using o s by simp
    qed
  qed
  show ?thesis
    using ns m d o slugify_Section slugify_marks slugify_blank
    unfolding len secs_def fb_def by simp
qed

lemma sections_of_marks_menu:
  "map (\<lambda>s. (name s, anchor s)) (menu_sections_of ascii_interpreter [item_x, item_y, item_a]) =
     [(py_str ''!!!'', py_str ''section-1''), (py_str ''Section'', py_str ''section-2''),
      (py_str ''Soup'', py_str ''soup'')]"
proof -
  have c: "category_name item_x = py_str ''!!!''" "category_name item_y = py_str ''Section''"
    "category_name item_a = py_str ''Soup''"
    by (simp_all add: category_name_def item_x_def item_y_def item_a_def py_str_def)
  have ne: "py_str ''!!!'' \<noteq> py_str ''Section''" "py_str ''Section'' \<noteq> py_str ''Soup''"
    "py_str ''soup'' \<noteq> py_str ''section''"
    by (simp_all add: py_str_def)
  have n: "py_str ''section-'' @ str_nat (Suc 0) = py_str ''section-1''"
    "py_str ''section-'' @ str_nat (Suc (Suc 0)) = py_str ''section-2''"
    by (simp_all add: py_str_def str_nat.simps)
  show ?thesis
    using ne by (simp add: menu_sections_of_def Let_def c n slugify_Soup slugify_Section slugify_marks)
qed

theorem anchors_never_plain_section_witness:
  "map anchor (menu_sections_of ascii_interpreter [item_x, item_y, item_a]) =
     [py_str ''section-1'', py_str ''section-2'', py_str ''soup'']
   \<and> distinct (map anchor (filter (\<lambda>s. slugify ascii_interpreter (name s) = py_str ''section'')
                              (menu_sections_of ascii_interpreter [item_x, item_y, item_a])))"
proof -
  have "map anchor (menu_sections_of ascii_interpreter [item_x, item_y, item_a]) =
          map snd (map (\<lambda>s. (name s, anchor s))
            (menu_sections_of ascii_interpreter [item_x, item_y, item_a]))"
    by (simp add: comp_def)
  then have a: "map anchor (menu_sections_of ascii_interpreter [item_x, item_y, item_a]) =
     [py_str ''section-1'', py_str ''section-2'', py_str ''soup'']"
    unfolding sections_of_marks_menu by simp
  show ?thesis
    using a anchors_never_plain_section[of ascii_interpreter "[item_x, item_y, item_a]"]
    by blast
qed

section \<open>The creation of an order\<close>

lemma py_int_empty: "py_int U [] = Inl ValueError"
  by (simp add: py_int_def long_from_string_def)

lemma parse_order_items_eq:
  "parse_order_items U form_data menu_items =
     map (\<lambda>item. (item, submitted_quantity U form_data item))
       (filter (\<lambda>item. 0 < submitted_quantity U form_data item) menu_items)"
proof (induction menu_items)
  case Nil
  show ?case by simp
next
  case (Cons item rest)
  have q: "(case form_data (py_str ''item_'' @ str_int (mi_id item)) of
              None \<Rightarrow> 0
            | Some s \<Rightarrow> if s = [] then 0
                       else (case py_int U s of Inl ValueError \<Rightarrow> 0 | Inr n \<Rightarrow> n))
           = submitted_quantity U form_data item"
    by (auto simp: submitted_quantity_def py_int_empty split: option.splits sum.splits py_error.splits)
  show ?case
    using Cons.IH by (simp add: Let_def q)
qed


lemma ids: "str_int 1 = py_str ''1''" "str_int 2 = py_str ''2''" "str_int 3 = py_str ''3''"
  by (simp_all add: str_int_def str_nat.simps py_str_def)

lemmas int_simps = py_int_def long_from_string_def c_isspace_def c_isdigit_def digits_value_def





lemma fl_numeral: "(numeral k :: int) < 2 ^ 53 \<Longrightarrow> fl (numeral k) = Finite (numeral k)"
  using fl_of_int[of "numeral k"] by simp

lemma round_half_even_numeral: "round_half_even (numeral k) = numeral k"
  using round_half_even_of_int[of "numeral k"] by simp

lemma float_of_int_small: "\<bar>q\<bar> < 2 ^ 53 \<Longrightarrow> float_of_int q = Inr (Finite (of_int q))"
  by (simp add: float_of_int_def fl_of_int)




lemma new_order_Inr:
  assumes "new_order U db table created_by selected_items now_recalc now_commit = Inr order"
  shows "o_id order = next_id (map o_id (orders db))"
    and "status order = py_str ''pending''"
    and "items order =
           map (\<lambda>(menu_item, qty).
                  \<lparr>menu_item_id = mi_id menu_item, quantity = qty, price = mi_price menu_item\<rparr>)
               selected_items"
    and "\<exists>ss. subtotals (items order) = Inr ss \<and>
              total_amount order = py_sum (compensated_sum U) ss"
  using assms by (auto simp: new_order_def recalculate_total_def split: sum.splits)





lemma next_id_Nil: "next_id [] = 1"
  by (simp add: next_id_def)




section \<open>Every request keeps the invariant\<close>

lemma login_required_cases:
  assumes "login_required roles g_user db view = Inr (db', flashes, resp)"
  shows "db' = db \<or> view = Inr (db', flashes, resp)"
  using assms by (auto simp: login_required_def split: option.splits if_splits)

lemma find_Some_set: "find P xs = Some x \<Longrightarrow> x \<in> set xs \<and> P x"
  by (induction xs) (auto split: if_splits)

lemma order_invariant_new_order:
  assumes "new_order U db table created_by selected_items now_recalc now_commit = Inr order"
  shows "order_invariant U order"
  using new_order_Inr(2,4)[OF assms] by (auto simp: order_invariant_def STATUS_FLOW_def)

lemma invariant_update_order:
  assumes "database_invariant U db" and "order_invariant U order'"
  shows "database_invariant U (update_order db order')"
  using assms by (auto simp: database_invariant_def update_order_def list_all_iff)

lemma invariant_add_order:
  assumes "database_invariant U db"
      and "new_order U db' table created_by selected_items now_recalc now_commit = Inr order"
  shows "database_invariant U (db\<lparr>orders := orders db @ [order]\<rparr>)"
  using assms(1) order_invariant_new_order[OF assms(2)] by (simp add: database_invariant_def)

lemma invariant_staff_new_order:
  assumes "database_invariant U db"
      and "staff_new_order U db g_user method form_data now_recalc now_commit = Inr (db', flashes, resp)"
  shows "database_invariant U db'"
  using assms invariant_add_order[OF assms(1)]
  by (auto simp: staff_new_order_def Let_def split: if_splits option.splits sum.splits)

lemma invariant_table_view:
  assumes "database_invariant U db"
      and "table_view U db code' method form_data now_recalc now_commit = Inr (db', flashes, resp)"
  shows "database_invariant U db'"
  using assms invariant_add_order[OF assms(1)]
  by (auto simp: table_view_def Let_def split: if_splits option.splits sum.splits)

lemma invariant_staff_update_status:
  assumes "database_invariant U db"
      and "staff_update_status U db order_id form_data now_status now_paid = Inr (db', flashes, resp)"
  shows "database_invariant U db'"
proof (cases "find (\<lambda>row. o_id row = order_id) (orders db)")
  case None
  then show ?thesis using assms by (simp add: staff_update_status_def)
next
  case (Some order)
  then have inv: "order_invariant U order"
    using assms(1) find_Some_set[OF Some] by (auto simp: database_invariant_def list_all_iff)
  show ?thesis
  proof (cases "form_data (py_str ''status'')")
    case None
    then show ?thesis using assms Some by (simp add: staff_update_status_def)
  next
    case st: (Some status')
    show ?thesis
    proof (cases "status' \<in> set STATUS_FLOW")
      case False
      then show ?thesis using assms Some st by (simp add: staff_update_status_def)
    next
      case True
      have k: "order_invariant U (order\<lparr>status := status', updated_at := a, paid_at := b, payment_method := c\<rparr>)"
        for a b c
        using inv True by (simp add: order_invariant_def split: sum.splits)
      have k2: "order_invariant U (order\<lparr>status := status', updated_at := a, payment_method := c, paid_at := b\<rparr>)"
        for a b c
        using inv True by (simp add: order_invariant_def split: sum.splits)
      show ?thesis
        using assms(2) Some st True
          invariant_update_order[OF assms(1) k] invariant_update_order[OF assms(1) k2]
        by (auto simp: staff_update_status_def Let_def split: if_splits)
    qed
  qed
qed

lemma invariant_staff_acknowledge:
  assumes "database_invariant U db"
      and "staff_acknowledge db order_id now = Inr (db', flashes, resp)"
  shows "database_invariant U db'"
proof (cases "find (\<lambda>row. o_id row = order_id) (orders db)")
  case None
  then show ?thesis using assms by (simp add: staff_acknowledge_def)
next
  case (Some order)
  then have inv: "order_invariant U order"
    using assms(1) find_Some_set[OF Some] by (auto simp: database_invariant_def list_all_iff)
  have k: "order_invariant U (order\<lparr>requested_assistance := False, updated_at := now\<rparr>)"
    using inv by (simp add: order_invariant_def split: sum.splits)
  show ?thesis
    using assms(2) Some invariant_update_order[OF assms(1) k]
    by (auto simp: staff_acknowledge_def)
qed

lemma invariant_customer_call_staff:
  assumes "database_invariant U db"
      and "customer_call_staff U db code' order_id now = Inr (db', flashes, resp)"
  shows "database_invariant U db'"
proof (cases "find (\<lambda>t. code t = py_upper U code') (tables db)")
  case None
  then show ?thesis using assms by (simp add: customer_call_staff_def)
next
  case t: (Some table)
  show ?thesis
  proof (cases "find (\<lambda>row. o_id row = order_id \<and> table_id row = dt_id table) (orders db)")
    case None
    then show ?thesis using assms t by (simp add: customer_call_staff_def)
  next
    case (Some order)
    then have inv: "order_invariant U order"
      using assms(1) find_Some_set[OF Some] by (auto simp: database_invariant_def list_all_iff)
    have k: "order_invariant U (order\<lparr>requested_assistance := True, updated_at := now\<rparr>)"
      using inv by (simp add: order_invariant_def split: sum.splits)
    show ?thesis
      using assms(2) t Some invariant_update_order[OF assms(1) k]
      by (auto simp: customer_call_staff_def)
  qed
qed

lemma invariant_admin_menu_new:
  assumes "database_invariant U db"
      and "admin_menu_new U db method form_data = Inr (db', flashes, resp)"
  shows "database_invariant U db'"
  using assms
  by (auto simp: admin_menu_new_def database_invariant_def
      split: if_splits prod.splits option.splits)

lemma invariant_admin_menu_edit:
  assumes "database_invariant U db"
      and "admin_menu_edit U db item_id method form_data = Inr (db', flashes, resp)"
  shows "database_invariant U db'"
  using assms
  by (auto simp: admin_menu_edit_def database_invariant_def
      split: if_splits prod.splits option.splits)

lemma invariant_admin_menu_delete:
  assumes "database_invariant U db"
      and "admin_menu_delete db item_id = Inr (db', flashes, resp)"
  shows "database_invariant U db'"
  using assms
  by (auto simp: admin_menu_delete_def database_invariant_def list_all_iff split: option.splits)

lemma invariant_admin_tables:
  assumes "database_invariant U db"
      and "admin_tables U db method form_data = Inr (db', flashes, resp)"
  shows "database_invariant U db'"
  using assms
  by (auto simp: admin_tables_def database_invariant_def Let_def split: if_splits)

lemma invariant_admin_table_delete:
  assumes "database_invariant U db"
      and "admin_table_delete db table_id' = Inr (db', flashes, resp)"
  shows "database_invariant U db'"
  using assms
  by (auto simp: admin_table_delete_def database_invariant_def split: if_splits option.splits)

lemma invariant_seed_data:
  assumes "database_invariant U db"
  shows "database_invariant U (seed_data db)"
  using assms
  by (simp add: seed_data_def database_invariant_def Let_def)

lemma invariant_empty_database: "database_invariant U empty_database"
  by (simp add: database_invariant_def empty_database_def)

lemma invariant_dispatch:
  assumes "database_invariant U db"
      and "dispatch U db g_user req = Inr (db', flashes, resp)"
  shows "database_invariant U db'"
proof (cases req)
  case (Admin_menu_new http_meth form_data)
  then show ?thesis
    using assms login_required_cases invariant_admin_menu_new by (metis dispatch.simps(1))
next
  case (Admin_menu_edit item_id http_meth form_data)
  then show ?thesis
    using assms login_required_cases invariant_admin_menu_edit by (metis dispatch.simps(2))
next
  case (Admin_menu_delete item_id)
  then show ?thesis
    using assms login_required_cases invariant_admin_menu_delete by (metis dispatch.simps(3))
next
  case (Admin_tables http_meth form_data)
  then show ?thesis
    using assms login_required_cases invariant_admin_tables by (metis dispatch.simps(4))
next
  case (Admin_table_delete table_id')
  then show ?thesis
    using assms login_required_cases invariant_admin_table_delete by (metis dispatch.simps(5))
next
  case (Staff_new_order http_meth form_data now_recalc now_commit)
  then show ?thesis
    using assms login_required_cases invariant_staff_new_order by (metis dispatch.simps(6))
next
  case (Staff_update_status order_id form_data now_status now_paid)
  then show ?thesis
    using assms login_required_cases invariant_staff_update_status by (metis dispatch.simps(7))
next
  case (Staff_acknowledge order_id now)
  then show ?thesis
    using assms login_required_cases invariant_staff_acknowledge by (metis dispatch.simps(8))
next
  case (Table_view code' http_meth form_data now_recalc now_commit)
  then show ?thesis
    using assms invariant_table_view by (metis dispatch.simps(9))
next
  case (Customer_call_staff code' order_id now)
  then show ?thesis
    using assms invariant_customer_call_staff by (metis dispatch.simps(10))
qed

lemma reachable_invariant: "reachable U db \<Longrightarrow> database_invariant U db"
proof (induction rule: reachable.induct)
  case start
  show ?case using invariant_seed_data[OF invariant_empty_database] .
next
  case (restart db)
  then show ?case by (simp add: invariant_seed_data)
next
  case (request db g_user req db' flashes resp)
  then show ?case using invariant_dispatch by blast
qed

section \<open>A state reached by one order\<close>

lemma reachable_after:
  assumes "reachable U db"
  shows "reachable U (database_after db (dispatch U db None req))"
proof (cases "dispatch U db None req")
  case (Inl a)
  then show ?thesis using assms by (simp add: database_after_def)
next
  case (Inr r)
  obtain db' flashes resp where r: "r = (db', flashes, resp)"
    by (cases r) auto
  have "reachable U db'"
    using reachable.request[OF assms, of None req db' flashes resp] Inr r by simp
  then show ?thesis
    using Inr r by (simp add: database_after_def)
qed

lemma db_seeded_fields:
  "tables db_seeded = seed_tables" "menu db_seeded = seed_menu" "orders db_seeded = []"
  "users db_seeded = seed_users"
  by (simp_all add: db_seeded_def seed_data_def empty_database_def Let_def)

lemma seed_item_fields:
  "mi_id pad_thai = 1" "mi_id tom_yum_kung = 2" "mi_id thai_iced_tea = 3" "mi_id mango_sticky_rice = 4"
  "available pad_thai" "available tom_yum_kung" "available thai_iced_tea" "available mango_sticky_rice"
  "mi_price pad_thai = Finite 80"
  by (simp_all add: pad_thai_def tom_yum_kung_def thai_iced_tea_def mango_sticky_rice_def)

lemma seed_menu_sorted:
  "sort_key (\<lambda>m. (category m, mi_name m)) (filter available seed_menu) =
     [mango_sticky_rice, tom_yum_kung, pad_thai, thai_iced_tea]"
proof -
  have f: "filter available seed_menu = [pad_thai, tom_yum_kung, thai_iced_tea, mango_sticky_rice]"
    by (simp add: seed_menu_def seed_item_fields)
  have k: "category pad_thai = Some [3629, 3634, 3627, 3634, 3619, 3592, 3634, 3609, 3627, 3621, 3633, 3585]"
    "category tom_yum_kung = Some [3595, 3640, 3611]"
    "category thai_iced_tea = Some [3648, 3588, 3619, 3639, 3656, 3629, 3591, 3604, 3639, 3656, 3617]"
    "category mango_sticky_rice = Some [3586, 3629, 3591, 3627, 3623, 3634, 3609]"
    by (simp_all add: pad_thai_def tom_yum_kung_def thai_iced_tea_def mango_sticky_rice_def)
  show ?thesis
    unfolding f by (simp add: k)
qed

lemma ids4: "str_int 1 = py_str ''1''" "str_int 2 = py_str ''2''" "str_int 3 = py_str ''3''"
  "str_int 4 = py_str ''4''"
  by (simp_all add: str_int_def str_nat.simps py_str_def)

lemma qty_t1:
  "submitted_quantity U form_t1 pad_thai = 2"
  "submitted_quantity U form_t1 tom_yum_kung = 0"
  "submitted_quantity U form_t1 thai_iced_tea = 0"
  "submitted_quantity U form_t1 mango_sticky_rice = 0"
  by (simp_all add: submitted_quantity_def form_t1_def seed_item_fields ids4 py_str_def int_simps)

lemma find_t1: "find (\<lambda>t. code t = py_upper U (py_str ''t1'')) seed_tables =
  Some \<lparr>dt_id = 1, code = py_str ''T1'', dt_name = [3650, 3605, 3658, 3632, 32, 49]\<rparr>"
  by (simp add: seed_tables_def py_upper_def py_str_def upt_rec)

lemma subtotal_2_80:
  "subtotal \<lparr>menu_item_id = 1, quantity = 2, price = Finite 80\<rparr> = Inr (Finite 160)"
  by (simp add: subtotal_def float_of_int_small py_round_def round_half_even_numeral fl_numeral)

lemma orders_db_ordered: "orders db_ordered = [order_t1]"
proof -
  have p: "parse_order_items ascii_interpreter form_t1
             [mango_sticky_rice, tom_yum_kung, pad_thai, thai_iced_tea] = [(pad_thai, 2)]"
    unfolding parse_order_items_eq by (simp add: qty_t1)
  have n: "new_order ascii_interpreter db_seeded \<lparr>dt_id = 1, code = py_str ''T1'', dt_name = [3650, 3605, 3658, 3632, 32, 49]\<rparr>
             None [(pad_thai, 2)] 10 11 = Inr order_t1"
    by (simp add: new_order_def recalculate_total_def db_seeded_fields next_id_Nil seed_item_fields
        subtotal_2_80 py_sum_def ascii_interpreter_def fl_numeral order_t1_def)
  have "table_view ascii_interpreter db_seeded (py_str ''t1'') POST form_t1 10 11 =
          Inr (db_seeded\<lparr>orders := [order_t1]\<rparr>, [(order_sent, success)],
               redirect_customer_order_summary (py_str ''T1'') 1)"
    unfolding table_view_def db_seeded_fields find_t1 seed_menu_sorted
    by (simp add: Let_def p n del: parse_order_items.simps) (simp add: order_t1_def)
  then show ?thesis
    by (simp add: db_ordered_def database_after_def)
qed

lemma reachable_db_ordered: "reachable ascii_interpreter db_ordered"
  unfolding db_ordered_def db_seeded_def
  by (rule reachable_after) (rule reachable.start)

section \<open>A state reached with the prices 0.1 and 0.2\<close>
























section \<open>The orders of the reachable states\<close>



lemma new_order_db_ordered:
  "new_order ascii_interpreter db_ordered table_1 None [(pad_thai, 2)] 20 21 = Inr order_t2"
proof -
  have "next_id (map o_id (orders db_ordered)) = 2"
    by (simp add: orders_db_ordered order_t1_def next_id_def)
  then show ?thesis
    by (simp add: new_order_def recalculate_total_def seed_item_fields table_1_def
        subtotal_2_80 py_sum_def ascii_interpreter_def fl_numeral order_t2_def)
qed




text \<open>
  Claim C9. In every state that the application reaches, the status of every order is
  one of the five of \<open>STATUS_FLOW\<close>; it is never \<open>cancelled\<close>, and the order is active
  exactly when its status is not \<open>paid\<close>. A new order has the status \<open>pending\<close>.
\<close>

theorem status_always_in_pipeline:
  assumes "reachable U db" and "row \<in> set (orders db)"
  shows "status row \<in> set STATUS_FLOW
         \<and> status row \<noteq> py_str ''cancelled''
         \<and> is_active row = (status row \<noteq> py_str ''paid'')
         \<and> (\<forall>order. new_order U db table created_by selected_items now_recalc now_commit = Inr order \<longrightarrow>
               status order = py_str ''pending'')"
proof -
  have "database_invariant U db"
    using assms(1) by (rule reachable_invariant)
  then have "order_invariant U row"
    using assms(2) by (simp add: database_invariant_def list_all_iff)
  then have s: "status row \<in> set STATUS_FLOW"
    by (simp add: order_invariant_def)
  have c: "py_str ''cancelled'' \<notin> set STATUS_FLOW"
    by (simp add: STATUS_FLOW_def py_str_def)
  have n: "status row \<noteq> py_str ''cancelled''"
    using s c by auto
  have a: "is_active row = (status row \<noteq> py_str ''paid'')"
    using n by (simp add: is_active_def)
  have p: "\<forall>order. new_order U db table created_by selected_items now_recalc now_commit = Inr order \<longrightarrow>
               status order = py_str ''pending''"
    using new_order_Inr(2) by blast
  show ?thesis
    using s n a p by blast
qed

theorem status_always_in_pipeline_witness:
  "reachable ascii_interpreter db_ordered \<and> order_t1 \<in> set (orders db_ordered)
   \<and> status order_t1 = py_str ''pending''
   \<and> status order_t1 \<in> set STATUS_FLOW
   \<and> status order_t1 \<noteq> py_str ''cancelled''
   \<and> is_active order_t1
   \<and> new_order ascii_interpreter db_ordered table_1 None [(pad_thai, 2)] 20 21 = Inr order_t2
   \<and> status order_t2 = py_str ''pending''"
proof -
  have m: "order_t1 \<in> set (orders db_ordered)"
    by (simp add: orders_db_ordered)
  have s: "status order_t1 = py_str ''pending''"
    by (simp add: order_t1_def)
  have np: "py_str ''pending'' \<noteq> py_str ''paid''"
    by (simp add: py_str_def)
  note w = status_always_in_pipeline[OF reachable_db_ordered m,
      where table = table_1 and created_by = None
        and selected_items = "[(pad_thai, 2)]" and now_recalc = 20 and now_commit = 21]
  have t: "status order_t2 = py_str ''pending''"
    using w new_order_db_ordered by blast
  show ?thesis
    using reachable_db_ordered m s np w new_order_db_ordered t by simp
qed

end
